theory Spec2Isabelle
  imports Main
begin

section \<open>Data model of the live channel service (live.ts)\<close>

text \<open>
  The service \<^verbatim>\<open>CentrifugeSrv\<close> of \<^verbatim>\<open>public/app/features/live/live.ts\<close> keeps a map
  \<^verbatim>\<open>open\<close> from channel keys to channel objects, starts the initialisation of a new channel
  in the background (an \<^verbatim>\<open>async\<close> function whose promise gets a \<^verbatim>\<open>catch\<close> handler) and
  turns a channel's event stream into query responses.

  Objects with identity (the channels) live in a heap, a list indexed by reference; two
  references are the same object iff they are the same index. Every piece of JavaScript
  that runs to completion without giving control back (a call of \<^verbatim>\<open>getChannel\<close>, the
  continuation of an \<^verbatim>\<open>await\<close>, a \<^verbatim>\<open>catch\<close> callback, a callback of the transport) is
  one event of a step function on the state of the service.
\<close>

record LiveChannelAddress =
  scope :: string
  namespace :: string
  path :: string

datatype LiveChannelConnectionState = Pending | Connected | Disconnected | Shutdown | Invalid

text \<open>
  Modelled from the spec: the type \<^verbatim>\<open>LiveChannelConfig\<close> of \<^verbatim>\<open>@grafana/data\<close> is not part
  of the sources at hand; the spec calls it the capability descriptor for a namespace and
  path (whether it supports presence, publishing, ...).
\<close>

record LiveChannelConfig =
  hasPresence :: bool
  canPublish :: bool

text \<open>
  Modelled from the spec: the scope objects and their support objects (\<^verbatim>\<open>./scopes\<close>) are
  not part of the sources at hand; they are parameters of the service. By the contract of
  the scope resolver, \<^verbatim>\<open>getChannelSupport(namespace)\<close> is a promise of a support object or of
  \<^verbatim>\<open>null\<close>, and \<^verbatim>\<open>getChannelConfig(path)\<close> of a support object is a configuration or
  \<^verbatim>\<open>undefined\<close>: an unknown namespace or path is a sentinel, not an exception. A scope is
  given by the value its promise resolves to.
\<close>

type_synonym LiveChannelSupport = "string \<Rightarrow> LiveChannelConfig option"

type_synonym GrafanaLiveScope = "string \<Rightarrow> LiveChannelSupport option"

text \<open>
  Modelled from the spec: the type \<^verbatim>\<open>DataFrameJSON\<close> of \<^verbatim>\<open>@grafana/data\<close> is not part of
  the sources at hand; the spec describes the envelope of a frame message as either
  schema-defining (ordered field list) or data-only (row values keyed to the last-seen
  schema). A message has a schema (the ordered field names), rows of values, or both.
\<close>

datatype cell = Num int | Str string | Null

record DataFrameJSON =
  schema :: "string list option"
  rows :: "cell list list"

datatype LiveChannelEvent =
    Status LiveChannelConnectionState "string option" "DataFrameJSON option"
  | Message DataFrameJSON

text \<open>
  The promise of \<^verbatim>\<open>initChannel(scope, channel)\<close>, one for every channel made by
  \<^verbatim>\<open>getChannel\<close>: suspended at the first \<^verbatim>\<open>await\<close> (line 143, with the value the awaited
  promise resolves to), suspended at the second (line 153), rejected with the handler of
  \<^verbatim>\<open>.catch\<close> still to run, fulfilled, or rejected and handled.
\<close>

datatype init_task =
    NoInit
  | AwaitSupport "LiveChannelSupport option"
  | AwaitBlocker
  | InitRejected string
  | InitResolved
  | InitFailed

text \<open>
  Modelled from the spec: the class \<^verbatim>\<open>CentrifugeLiveChannel\<close> and \<^verbatim>\<open>getErrorChannel\<close> of
  \<^verbatim>\<open>./channel\<close> are not part of the sources at hand. By the spec a channel owns a status
  (one of the five states, with an optional error), a cached last message with schema, an
  underlying subscription handle and an event stream; it is created in \<^verbatim>\<open>Pending\<close>.
  The fields \<^verbatim>\<open>id\<close>, \<^verbatim>\<open>addr\<close>, \<^verbatim>\<open>currentStatus.state\<close>, \<^verbatim>\<open>subscription\<close>,
  \<^verbatim>\<open>shutdownCallback\<close> and \<^verbatim>\<open>lastMessageWithSchema\<close> are the ones live.ts reads and writes.
  \<open>shutdownCallback\<close> holds the key that the closure of lines 123 to 125 deletes from the map
  of open channels; \<open>stream\<close> is the sequence of events sent on the channel's stream so
  far; \<open>init\<close> is the promise of the channel's initialisation.
\<close>

record CentrifugeLiveChannel =
  chan_id :: string
  chan_addr :: LiveChannelAddress
  status_state :: LiveChannelConnectionState
  status_error :: "string option"
  config :: "LiveChannelConfig option"
  subscription :: "string option"
  shutdownCallback :: "string option"
  lastMessageWithSchema :: "DataFrameJSON option"
  stream :: "LiveChannelEvent list"
  init :: init_task

text \<open>
  Modelled from the spec: the constructor of \<^verbatim>\<open>CentrifugeLiveChannel\<close>; a channel is
  created in \<^verbatim>\<open>Pending\<close>, with no error, configuration, subscription or event yet.
\<close>

definition CentrifugeLiveChannel_new :: "string \<Rightarrow> LiveChannelAddress \<Rightarrow> CentrifugeLiveChannel" where
  "CentrifugeLiveChannel_new i a =
     \<lparr> chan_id = i, chan_addr = a, status_state = Pending, status_error = None,
       config = None, subscription = None, shutdownCallback = None,
       lastMessageWithSchema = None, stream = [], init = NoInit \<rparr>"

text \<open>
  Modelled from the spec: \<^verbatim>\<open>getErrorChannel(msg, id, addr)\<close> of \<^verbatim>\<open>./channel\<close>; by the spec
  its result is immediately \<^verbatim>\<open>Invalid\<close> with the error, which its stream reports.
\<close>

definition getErrorChannel :: "string \<Rightarrow> string \<Rightarrow> LiveChannelAddress \<Rightarrow> CentrifugeLiveChannel" where
  "getErrorChannel msg i a =
     \<lparr> chan_id = i, chan_addr = a, status_state = Invalid, status_error = Some msg,
       config = None, subscription = None, shutdownCallback = None,
       lastMessageWithSchema = None, stream = [Status Invalid (Some msg) None], init = NoInit \<rparr>"

text \<open>
  The service. \<open>open_chans\<close> is the map \<^verbatim>\<open>open\<close>, \<open>heap\<close> the channel objects made so far,
  \<open>scopes\<close> the table \<^verbatim>\<open>this.scopes\<close> (its keys are the registered scopes). The transport
  \<^verbatim>\<open>this.centrifuge\<close> is an external library: \<open>isConnected\<close> is what \<^verbatim>\<open>isConnected()\<close>
  answers, \<open>subscribe_throws\<close> says for which channel ids \<^verbatim>\<open>subscribe\<close> throws (and what),
  \<open>subscribed\<close> lists the ids of the calls of \<^verbatim>\<open>subscribe\<close> that returned.
  \<open>connectionState\<close> is the current value of the behaviour subject, \<open>connectionBlocker\<close>
  says whether the promise of that name is resolved.
\<close>

record CentrifugeSrv =
  open_chans :: "string \<rightharpoonup> nat"
  heap :: "CentrifugeLiveChannel list"
  scopes :: "string \<rightharpoonup> GrafanaLiveScope"
  isConnected :: bool
  subscribe_throws :: "string \<Rightarrow> string option"
  subscribed :: "string list"
  connectionState :: bool
  connectionBlocker :: bool

text \<open>
  The constructor (lines 53 to 86): \<open>c0\<close> is the answer of \<^verbatim>\<open>isConnected()\<close> right after
  \<^verbatim>\<open>connect()\<close>; the blocker is resolved at once iff it is true.
\<close>

definition CentrifugeSrv_new ::
  "(string \<rightharpoonup> GrafanaLiveScope) \<Rightarrow> bool \<Rightarrow> (string \<Rightarrow> string option) \<Rightarrow> CentrifugeSrv" where
  "CentrifugeSrv_new tbl c0 thr =
     \<lparr> open_chans = Map.empty, heap = [], scopes = tbl, isConnected = c0,
       subscribe_throws = thr, subscribed = [], connectionState = c0,
       connectionBlocker = c0 \<rparr>"

section \<open>The channel registry: getChannel\<close>

text \<open>
  \<^verbatim>\<open>this.scopes\<close> is an object literal with one own property for every registered scope
  (lines 75 to 80), and \<^verbatim>\<open>this.scopes[addr.scope]\<close> (lines 117 and 179) is a property
  lookup: a key that is not an own property is looked up in \<^verbatim>\<open>Object.prototype\<close>. The
  properties of \<^verbatim>\<open>Object.prototype\<close> are functions, or (\<^verbatim>\<open>__proto__\<close>) an object: values that
  are truthy and have no method \<^verbatim>\<open>getChannelSupport\<close>. A lookup gives \<^verbatim>\<open>undefined\<close>, a
  registered scope object, or such an inherited value. Calling the missing method throws
  a \<^verbatim>\<open>TypeError\<close>, whose message is the engine's.
\<close>

definition Object_prototype_keys :: "string list" where
  "Object_prototype_keys =
     [''constructor'', ''__defineGetter__'', ''__defineSetter__'', ''hasOwnProperty'',
      ''__lookupGetter__'', ''__lookupSetter__'', ''isPrototypeOf'', ''propertyIsEnumerable'',
      ''toString'', ''valueOf'', ''__proto__'', ''toLocaleString'']"

datatype scope_slot = Undefined | ScopeObject GrafanaLiveScope | Inherited

definition scopes_get :: "CentrifugeSrv \<Rightarrow> string \<Rightarrow> scope_slot" where
  "scopes_get srv key =
     (case scopes srv key of
        Some sc \<Rightarrow> ScopeObject sc
      | None \<Rightarrow> if key \<in> set Object_prototype_keys then Inherited else Undefined)"

definition not_a_function :: string where
  "not_a_function = ''TypeError: scope.getChannelSupport is not a function''"

definition channel_key :: "LiveChannelAddress \<Rightarrow> string" where
  "channel_key a = scope a @ ''/'' @ namespace a @ ''/'' @ path a"

text \<open>
  \<^verbatim>\<open>getChannel\<close> (lines 110 to 139) up to its \<^verbatim>\<open>return\<close>. The call of \<^verbatim>\<open>initChannel\<close> runs
  to its first \<^verbatim>\<open>await\<close> (line 143), where the promise of \<^verbatim>\<open>getChannelSupport\<close> has been
  requested and nothing else has happened. With an inherited value for the scope, the
  test of line 118 passes, the channel is made and registered, and the call of
  \<^verbatim>\<open>getChannelSupport\<close> at line 143 throws: the promise of \<^verbatim>\<open>initChannel\<close> is rejected when
  \<^verbatim>\<open>getChannel\<close> returns.
\<close>

definition getChannel :: "CentrifugeSrv \<Rightarrow> LiveChannelAddress \<Rightarrow> nat \<times> CentrifugeSrv" where
  "getChannel srv a =
     (let k = channel_key a in
      case open_chans srv k of
        Some ch \<Rightarrow> (ch, srv)
      | None \<Rightarrow>
          (case scopes_get srv (scope a) of
             Undefined \<Rightarrow>
               (length (heap srv),
                srv\<lparr>heap := heap srv @ [getErrorChannel ''invalid scope'' k a]\<rparr>)
           | ScopeObject sc \<Rightarrow>
               (let ch = length (heap srv);
                    channel = (CentrifugeLiveChannel_new k a)
                      \<lparr>shutdownCallback := Some k, init := AwaitSupport (sc (namespace a))\<rparr>
                in (ch, srv\<lparr>heap := heap srv @ [channel], open_chans := (open_chans srv)(k \<mapsto> ch)\<rparr>))
           | Inherited \<Rightarrow>
               (let ch = length (heap srv);
                    channel = (CentrifugeLiveChannel_new k a)
                      \<lparr>shutdownCallback := Some k, init := InitRejected not_a_function\<rparr>
                in (ch, srv\<lparr>heap := heap srv @ [channel], open_chans := (open_chans srv)(k \<mapsto> ch)\<rparr>))))"

section \<open>Background initialisation and teardown\<close>

definition upd_chan ::
  "nat \<Rightarrow> (CentrifugeLiveChannel \<Rightarrow> CentrifugeLiveChannel) \<Rightarrow> CentrifugeSrv \<Rightarrow> CentrifugeSrv" where
  "upd_chan ch f srv = srv\<lparr>heap := (heap srv)[ch := f (heap srv ! ch)]\<rparr>"

text \<open>
  The methods of \<^verbatim>\<open>CentrifugeLiveChannel\<close> that live.ts calls, or that change what live.ts
  reads, follow; the class is in \<^verbatim>\<open>./channel\<close>, which is not part of the sources at hand.
\<close>

text \<open>
  Modelled from the spec: \<^verbatim>\<open>sendStatus\<close> of the channel; a status event carrying the state
  and the optional error goes on the channel's own stream.
\<close>

definition sendStatus :: "CentrifugeLiveChannel \<Rightarrow> CentrifugeLiveChannel" where
  "sendStatus c = c\<lparr>stream := stream c @ [Status (status_state c) (status_error c) None]\<rparr>"

text \<open>
  Modelled from the spec: \<^verbatim>\<open>initalize(config)\<close> of the channel; the channel takes the
  configuration obtained from the scope's capability provider. The result of the method,
  the event handlers, is what line 155 hands to the transport.
\<close>

definition initalize :: "LiveChannelConfig \<Rightarrow> CentrifugeLiveChannel \<Rightarrow> CentrifugeLiveChannel" where
  "initalize cfg c = c\<lparr>config := Some cfg\<rparr>"

text \<open>
  Modelled from the spec: the channel's call of its registered teardown callback, which
  by the spec is triggered exactly once. The callback itself is the closure of lines 123 to
  125 of live.ts: it deletes its key from the map of open channels.
\<close>

definition run_shutdownCallback :: "nat \<Rightarrow> CentrifugeSrv \<Rightarrow> CentrifugeSrv" where
  "run_shutdownCallback ch srv =
     (case shutdownCallback (heap srv ! ch) of
        None \<Rightarrow> srv
      | Some k \<Rightarrow>
          upd_chan ch (\<lambda>c. c\<lparr>shutdownCallback := None\<rparr>)
            (srv\<lparr>open_chans := (open_chans srv)(k := None)\<rparr>))"

text \<open>
  Modelled from the spec: \<^verbatim>\<open>shutdownWithError(err)\<close> of the channel; an initialisation error
  is surfaced once as a status event on the channel's own stream and the teardown callback
  is triggered. The state is the one that line 131 of live.ts has set.
\<close>

definition shutdownWithError :: "string \<Rightarrow> nat \<Rightarrow> CentrifugeSrv \<Rightarrow> CentrifugeSrv" where
  "shutdownWithError err ch srv =
     run_shutdownCallback ch (upd_chan ch (\<lambda>c. sendStatus (c\<lparr>status_error := Some err\<rparr>)) srv)"

text \<open>The two terminal states.\<close>

definition is_terminal :: "CentrifugeLiveChannel \<Rightarrow> bool" where
  "is_terminal c = (status_state c = Shutdown \<or> status_state c = Invalid)"

text \<open>
  Modelled from the spec: \<^verbatim>\<open>disconnect()\<close> of the channel, the explicit shutdown (the last
  consumer detaches); from any state that is not terminal the channel goes to \<^verbatim>\<open>Shutdown\<close>,
  unsubscribes and triggers the teardown callback; it is idempotent.
\<close>

definition disconnect :: "nat \<Rightarrow> CentrifugeSrv \<Rightarrow> CentrifugeSrv" where
  "disconnect ch srv =
     (if is_terminal (heap srv ! ch) then srv
      else run_shutdownCallback ch
             (upd_chan ch (\<lambda>c. sendStatus (c\<lparr>status_state := Shutdown, subscription := None\<rparr>)) srv))"

text \<open>
  Modelled from the spec: the channel's handler for the transport's acknowledgement of its
  subscription, or its resume; \<^verbatim>\<open>Pending\<close> or \<^verbatim>\<open>Disconnected\<close> becomes \<^verbatim>\<open>Connected\<close>. The
  transport has the handlers of a channel only from the call of line 155 on.
\<close>

definition on_subscribe :: "nat \<Rightarrow> CentrifugeSrv \<Rightarrow> CentrifugeSrv" where
  "on_subscribe ch srv =
     (let c = heap srv ! ch in
      if subscription c \<noteq> None \<and> (status_state c = Pending \<or> status_state c = Disconnected)
      then upd_chan ch (\<lambda>c. sendStatus (c\<lparr>status_state := Connected\<rparr>)) srv
      else srv)"

text \<open>
  Modelled from the spec: the channel's handler for the loss of its subscription;
  \<^verbatim>\<open>Connected\<close> becomes \<^verbatim>\<open>Disconnected\<close>.
\<close>

definition on_unsubscribe :: "nat \<Rightarrow> CentrifugeSrv \<Rightarrow> CentrifugeSrv" where
  "on_unsubscribe ch srv =
     (let c = heap srv ! ch in
      if subscription c \<noteq> None \<and> status_state c = Connected
      then upd_chan ch (\<lambda>c. sendStatus (c\<lparr>status_state := Disconnected\<rparr>)) srv
      else srv)"

text \<open>
  Modelled from the spec: the channel's handler for the transport's error reply to its
  subscribe (the transport answers \<^verbatim>\<open>subscribe(id)\<close> with an acknowledgement or an error).
  By the spec the rejected subscribe of a channel that is being initialised is an
  initialisation error: the channel goes straight to \<^verbatim>\<open>Invalid\<close>, the error is surfaced once
  as a status event on its own stream, and the teardown callback is triggered. Line 155 of
  live.ts does not wait for the reply, so the handler of \<^verbatim>\<open>.catch\<close> has no part in it.
\<close>

definition on_subscribe_error :: "string \<Rightarrow> nat \<Rightarrow> CentrifugeSrv \<Rightarrow> CentrifugeSrv" where
  "on_subscribe_error err ch srv =
     (let c = heap srv ! ch in
      if subscription c \<noteq> None \<and> status_state c = Pending
      then shutdownWithError err ch (upd_chan ch (\<lambda>c. c\<lparr>status_state := Invalid\<rparr>) srv)
      else srv)"

text \<open>
  \<^verbatim>\<open>initChannel\<close> (lines 141 to 157), cut at its two \<^verbatim>\<open>await\<close>s. A \<^verbatim>\<open>throw\<close> rejects the
  promise; the handler of \<^verbatim>\<open>.catch\<close> runs later, as an event of its own.
\<close>

definition reject :: "string \<Rightarrow> nat \<Rightarrow> CentrifugeSrv \<Rightarrow> CentrifugeSrv" where
  "reject msg ch srv = upd_chan ch (\<lambda>c. c\<lparr>init := InitRejected msg\<rparr>) srv"

text \<open>Lines 155 and 156: the call of \<^verbatim>\<open>this.centrifuge.subscribe\<close> and the return.\<close>

definition subscribe_channel :: "nat \<Rightarrow> CentrifugeSrv \<Rightarrow> CentrifugeSrv" where
  "subscribe_channel ch srv =
     (let c = heap srv ! ch in
      case subscribe_throws srv (chan_id c) of
        Some e \<Rightarrow> reject e ch srv
      | None \<Rightarrow>
          upd_chan ch (\<lambda>c. c\<lparr>subscription := Some (chan_id c), init := InitResolved\<rparr>)
            (srv\<lparr>subscribed := subscribed srv @ [chan_id c]\<rparr>))"

text \<open>Lines 144 to 156, run when the promise of \<^verbatim>\<open>getChannelSupport\<close> has settled.\<close>

definition initChannel_resume :: "nat \<Rightarrow> CentrifugeSrv \<Rightarrow> CentrifugeSrv" where
  "initChannel_resume ch srv =
     (let c = heap srv ! ch; addr = chan_addr c in
      case init c of
        AwaitSupport support \<Rightarrow>
          (case support of
             None \<Rightarrow> reject (namespace addr @ '' does not support streaming'') ch srv
           | Some supp \<Rightarrow>
               (case supp (path addr) of
                  None \<Rightarrow> reject (''unknown path: '' @ path addr) ch srv
                | Some cfg \<Rightarrow>
                    (let srv' = upd_chan ch (initalize cfg) srv in
                     if \<not> isConnected srv'
                     then upd_chan ch (\<lambda>c. c\<lparr>init := AwaitBlocker\<rparr>) srv'
                     else subscribe_channel ch srv')))
      | _ \<Rightarrow> srv)"

text \<open>Lines 155 and 156, run after \<^verbatim>\<open>await this.connectionBlocker\<close>, once it is resolved.\<close>

definition initChannel_unblocked :: "nat \<Rightarrow> CentrifugeSrv \<Rightarrow> CentrifugeSrv" where
  "initChannel_unblocked ch srv =
     (if init (heap srv ! ch) = AwaitBlocker \<and> connectionBlocker srv
      then subscribe_channel ch srv else srv)"

text \<open>The handler of \<^verbatim>\<open>.catch\<close> (lines 129 to 135), run for a rejected initialisation.\<close>

definition catch_handler :: "nat \<Rightarrow> CentrifugeSrv \<Rightarrow> CentrifugeSrv" where
  "catch_handler ch srv =
     (case init (heap srv ! ch) of
        InitRejected err \<Rightarrow>
          (let k = chan_id (heap srv ! ch);
               srv1 = upd_chan ch (\<lambda>c. c\<lparr>status_state := Invalid\<rparr>) srv;
               srv2 = shutdownWithError err ch srv1;
               srv3 = srv2\<lparr>open_chans := (open_chans srv2)(k := None)\<rparr>
           in upd_chan ch (\<lambda>c. c\<lparr>init := InitFailed\<rparr>) srv3)
      | _ \<Rightarrow> srv)"

text \<open>
  The listeners of the transport (lines 68 to 72 and 92 to 100): the first \<^verbatim>\<open>connect\<close>
  resolves the blocker, every one publishes \<^verbatim>\<open>true\<close>; \<^verbatim>\<open>disconnect\<close> publishes \<^verbatim>\<open>false\<close>.
\<close>

definition onConnect :: "CentrifugeSrv \<Rightarrow> CentrifugeSrv" where
  "onConnect srv = srv\<lparr>isConnected := True, connectionBlocker := True, connectionState := True\<rparr>"

definition onDisconnect :: "CentrifugeSrv \<Rightarrow> CentrifugeSrv" where
  "onDisconnect srv = srv\<lparr>isConnected := False, connectionState := False\<rparr>"

text \<open>
  The events. An event about a channel that does not exist, or about a promise that is not
  in the state the event needs, changes nothing.
\<close>

datatype event =
    GetChannel LiveChannelAddress
  | SupportSettles nat
  | BlockerSettles nat
  | CatchRuns nat
  | TransportConnect
  | TransportDisconnect
  | SubscribeAck nat
  | SubscriptionLost nat
  | SubscribeError nat string
  | ChannelDisconnect nat

fun step :: "CentrifugeSrv \<Rightarrow> event \<Rightarrow> CentrifugeSrv" where
  "step srv (GetChannel a) = snd (getChannel srv a)"
| "step srv (SupportSettles ch) = (if ch < length (heap srv) then initChannel_resume ch srv else srv)"
| "step srv (BlockerSettles ch) = (if ch < length (heap srv) then initChannel_unblocked ch srv else srv)"
| "step srv (CatchRuns ch) = (if ch < length (heap srv) then catch_handler ch srv else srv)"
| "step srv TransportConnect = onConnect srv"
| "step srv TransportDisconnect = onDisconnect srv"
| "step srv (SubscribeAck ch) = (if ch < length (heap srv) then on_subscribe ch srv else srv)"
| "step srv (SubscriptionLost ch) = (if ch < length (heap srv) then on_unsubscribe ch srv else srv)"
| "step srv (SubscribeError ch err) = (if ch < length (heap srv) then on_subscribe_error err ch srv else srv)"
| "step srv (ChannelDisconnect ch) = (if ch < length (heap srv) then disconnect ch srv else srv)"

definition run :: "CentrifugeSrv \<Rightarrow> event list \<Rightarrow> CentrifugeSrv" where
  "run srv es = foldl step srv es"

section \<open>getChannelInfo\<close>

text \<open>
  Lines 178 to 189. The promise of the \<^verbatim>\<open>async\<close> function either resolves to the value of
  \<^verbatim>\<open>getChannelConfig(path)\<close>, which may be \<^verbatim>\<open>undefined\<close>, or is rejected with a message.
  With an inherited value for the scope the call of \<^verbatim>\<open>getChannelSupport\<close> at line 184
  throws, which rejects the promise.
\<close>

datatype 'a settled = Resolves 'a | Rejects string

definition getChannelInfo ::
  "CentrifugeSrv \<Rightarrow> LiveChannelAddress \<Rightarrow> LiveChannelConfig option settled" where
  "getChannelInfo srv a =
     (case scopes_get srv (scope a) of
        Undefined \<Rightarrow> Rejects ''invalid scope''
      | Inherited \<Rightarrow> Rejects not_a_function
      | ScopeObject sc \<Rightarrow>
          (case sc (namespace a) of
             None \<Rightarrow> Rejects (namespace a @ '' does not support streaming'')
           | Some support \<Rightarrow> Resolves (support (path a))))"

section \<open>The frame buffer\<close>

text \<open>
  Modelled from the spec: the type \<^verbatim>\<open>StreamingFrameOptions\<close> of \<^verbatim>\<open>@grafana/data\<close>, not part
  of the sources at hand; the frame buffer is bounded by a configurable maximum size.
\<close>

record StreamingFrameOptions =
  maxLength :: "nat option"

text \<open>
  Modelled from the spec: the class \<^verbatim>\<open>StreamingDataFrame\<close> of \<^verbatim>\<open>@grafana/data\<close>, not part of
  the sources at hand; the frame buffer holds a schema (ordered field definitions) and a
  growing set of rows, in the order in which they were appended.
\<close>

record StreamingDataFrame =
  sdf_fields :: "string list"
  sdf_rows :: "cell list list"
  sdf_maxLength :: "nat option"

text \<open>
  Modelled from the spec: the bound of the frame buffer; with a maximum length the oldest
  rows are dropped first; without one nothing is dropped.
\<close>

definition evict :: "nat option \<Rightarrow> 'a list \<Rightarrow> 'a list" where
  "evict m xs = (case m of None \<Rightarrow> xs | Some k \<Rightarrow> drop (length xs - k) xs)"

text \<open>
  Modelled from the spec: \<^verbatim>\<open>push(message)\<close> of the frame buffer; a schema in the message
  replaces the column layout, the rows of the message are appended, and the bound is
  applied.
\<close>

definition push :: "DataFrameJSON \<Rightarrow> StreamingDataFrame \<Rightarrow> StreamingDataFrame" where
  "push msg b =
     b\<lparr>sdf_fields := (case schema msg of Some fs \<Rightarrow> fs | None \<Rightarrow> sdf_fields b),
       sdf_rows := evict (sdf_maxLength b) (sdf_rows b @ rows msg)\<rparr>"

text \<open>
  Modelled from the spec: the constructor of the frame buffer, as live.ts calls it, with
  the first message and the options of the stream; the message initialises the buffer.
\<close>

definition StreamingDataFrame_new ::
  "DataFrameJSON \<Rightarrow> StreamingFrameOptions option \<Rightarrow> StreamingDataFrame" where
  "StreamingDataFrame_new msg opts =
     push msg \<lparr> sdf_fields = [], sdf_rows = [],
                sdf_maxLength = (case opts of None \<Rightarrow> None | Some opt \<Rightarrow> maxLength opt) \<rparr>"

text \<open>
  Modelled from the spec: the type \<^verbatim>\<open>DataFrame\<close> of \<^verbatim>\<open>@grafana/data\<close>; a frame is a
  schema-tagged tabular payload, with its row count.
\<close>

record DataFrame =
  df_fields :: "string list"
  df_rows :: "cell list list"
  df_length :: nat

text \<open>
  Modelled from the spec: \<^verbatim>\<open>dataFrameToJSON\<close> of \<^verbatim>\<open>@grafana/data\<close>; the frame as a message
  that defines the schema and carries the rows.
\<close>

definition dataFrameToJSON :: "DataFrame \<Rightarrow> DataFrameJSON" where
  "dataFrameToJSON f = \<lparr> schema = Some (df_fields f), rows = df_rows f \<rparr>"

text \<open>
  Modelled from the spec: the frame buffer read as a frame (its snapshot), with the given
  fields; a filtered view has fewer fields, shares the rows, and its row count is that of
  the buffer.
\<close>

definition frame_of :: "string list \<Rightarrow> StreamingDataFrame \<Rightarrow> DataFrame" where
  "frame_of fs d = \<lparr> df_fields = fs, df_rows = sdf_rows d, df_length = length (sdf_rows d) \<rparr>"

section \<open>getDataStream\<close>

datatype LoadingState = NotStarted | Loading | Streaming | Done | Error

record DataQueryError =
  message :: string

datatype stream_key = Given string | Generated nat

record DataQueryResponse =
  resp_state :: LoadingState
  resp_data :: "DataFrame option list"
  resp_key :: "stream_key option"
  resp_error :: "DataQueryError option"

text \<open>
  The options of a data stream (\<^verbatim>\<open>LiveDataStreamOptions\<close> of \<^verbatim>\<open>@grafana/runtime\<close>): the
  fields that \<^verbatim>\<open>getDataStream\<close> reads. \<open>opt_filter\<close> is \<^verbatim>\<open>options.filter?.fields\<close>.
\<close>

record LiveDataStreamOptions =
  opt_key :: "string option"
  opt_addr :: LiveChannelAddress
  opt_frame :: "DataFrame option"
  opt_buffer :: "StreamingFrameOptions option"
  opt_filter :: "string list option option"

text \<open>
  Functions that live.ts imports and whose code is not part of the sources at hand are
  parameters: the validity check of an address, the conversion of an error to a
  \<^verbatim>\<open>DataQueryError\<close>, and \<^verbatim>\<open>JSON.stringify\<close> on addresses. The module \<^verbatim>\<open>./perf\<close> is a pair
  of variables that is read whenever a message is processed.
\<close>

record live_imports =
  isValidLiveChannelAddress :: "LiveChannelAddress \<Rightarrow> bool"
  toDataQueryError :: "string \<Rightarrow> DataQueryError"
  JSON_stringify :: "LiveChannelAddress \<Rightarrow> string"

record perf =
  perf_last :: int
  perf_ok :: bool

text \<open>
  The observable that \<^verbatim>\<open>getDataStream\<close> returns (lines 201 to 306): \<^verbatim>\<open>of(response)\<close>, or
  the observable whose subscriber function is given at lines 210 to 305.
\<close>

datatype DataStream = Of DataQueryResponse | LiveQuery LiveDataStreamOptions

definition getDataStream :: "live_imports \<Rightarrow> LiveDataStreamOptions \<Rightarrow> DataStream" where
  "getDataStream lib options =
     (if \<not> isValidLiveChannelAddress lib (opt_addr options)
      then Of \<lparr> resp_state = Error,
                resp_data = (case opt_frame options of Some f \<Rightarrow> [Some f] | None \<Rightarrow> []),
                resp_key = None,
                resp_error = Some (toDataQueryError lib
                  (''invalid channel address: '' @ JSON_stringify lib (opt_addr options))) \<rparr>
      else LiveQuery options)"

text \<open>
  The variables of one subscription (lines 211 to 216 and 260): the channel, \<^verbatim>\<open>data\<close>,
  \<^verbatim>\<open>filtered\<close> (given by the fields of the view), \<^verbatim>\<open>state\<close>, \<^verbatim>\<open>key\<close>, \<^verbatim>\<open>last\<close>; whether
  \<^verbatim>\<open>sub\<close>, the subscription to the channel's stream, is closed; whether the subscriber has
  been completed; and \<open>q_out\<close>, the responses delivered to the subscriber so far.
\<close>

record live_query =
  q_channel :: nat
  q_data :: "StreamingDataFrame option"
  q_filtered :: "string list option"
  q_state :: LoadingState
  q_key :: stream_key
  q_last :: int
  q_closed :: bool
  q_completed :: bool
  q_out :: "DataQueryResponse list"

text \<open>\<^verbatim>\<open>subscriber.next\<close>: a completed subscriber takes nothing more.\<close>

definition emit :: "DataQueryResponse \<Rightarrow> live_query \<Rightarrow> live_query" where
  "emit r q = (if q_completed q then q else q\<lparr>q_out := q_out q @ [r]\<rparr>)"

text \<open>\<^verbatim>\<open>[data]\<close> at lines 264 and 286: the buffer as it is, or \<^verbatim>\<open>undefined\<close>.\<close>

definition data_frame :: "StreamingDataFrame option \<Rightarrow> DataFrame option" where
  "data_frame d = (case d of None \<Rightarrow> None | Some b \<Rightarrow> Some (frame_of (sdf_fields b) b))"

text \<open>Lines 239 to 250: the fields of the filtered view of the buffer.\<close>

definition filter_fields :: "LiveDataStreamOptions \<Rightarrow> StreamingDataFrame \<Rightarrow> string list" where
  "filter_fields options d =
     (case opt_filter options of
        Some (Some names) \<Rightarrow>
          (if names \<noteq> [] then filter (\<lambda>f. f \<in> set names) (sdf_fields d) else sdf_fields d)
      | _ \<Rightarrow> sdf_fields d)"

text \<open>Lines 231 to 235: what \<^verbatim>\<open>process\<close> does to \<^verbatim>\<open>data\<close>.\<close>

definition process_data ::
  "LiveDataStreamOptions \<Rightarrow> DataFrameJSON \<Rightarrow> StreamingDataFrame option \<Rightarrow> StreamingDataFrame" where
  "process_data options msg d =
     (case d of
        None \<Rightarrow> StreamingDataFrame_new msg (opt_buffer options)
      | Some b \<Rightarrow> push msg b)"

text \<open>\<^verbatim>\<open>process\<close> (lines 230 to 258).\<close>

definition process :: "LiveDataStreamOptions \<Rightarrow> perf \<Rightarrow> DataFrameJSON \<Rightarrow> live_query \<Rightarrow> live_query" where
  "process options p msg q =
     (let d = process_data options msg (q_data q);
          fs = (case q_filtered q of
                  None \<Rightarrow> filter_fields options d
                | Some old \<Rightarrow> (if schema msg \<noteq> None then filter_fields options d else old));
          q1 = q\<lparr>q_data := Some d, q_state := Streaming, q_filtered := Some fs\<rparr>
      in if perf_last p - q_last q > 1000 \<or> perf_ok p
         then (emit \<lparr> resp_state = Streaming, resp_data = [Some (frame_of fs d)],
                      resp_key = Some (q_key q), resp_error = None \<rparr> q1)
                \<lparr>q_last := perf_last p\<rparr>
         else q1)"

text \<open>
  The subscriber function up to the subscription to the channel's stream (lines 211 to
  228 and 260). \<open>counter\<close> is the module variable \<^verbatim>\<open>streamCounter\<close>.
\<close>

definition subscribe_query ::
  "perf \<Rightarrow> LiveDataStreamOptions \<Rightarrow> CentrifugeSrv \<Rightarrow> nat \<Rightarrow> live_query \<times> CentrifugeSrv \<times> nat" where
  "subscribe_query p options srv counter =
     (let (ch, srv') = getChannel srv (opt_addr options);
          d0 = (case opt_frame options of
                  Some f \<Rightarrow> Some (StreamingDataFrame_new (dataFrameToJSON f) (opt_buffer options))
                | None \<Rightarrow> None);
          st = (case opt_frame options of Some f \<Rightarrow> Streaming | None \<Rightarrow> Loading);
          d1 = (case (lastMessageWithSchema (heap srv' ! ch), d0) of
                  (Some m, None) \<Rightarrow> Some (StreamingDataFrame_new m (opt_buffer options))
                | _ \<Rightarrow> d0);
          generate = (case opt_key options of None \<Rightarrow> True | Some k \<Rightarrow> k = []);
          k = (case opt_key options of
                 Some k \<Rightarrow> if k = [] then Generated counter else Given k
               | None \<Rightarrow> Generated counter)
      in (\<lparr> q_channel = ch, q_data = d1, q_filtered = None, q_state = st, q_key = k,
            q_last = perf_last p, q_closed = False, q_completed = False, q_out = [] \<rparr>,
          srv', if generate then counter + 1 else counter))"

text \<open>
  What the channel's stream can deliver to the observer of line 260, and the observer.
  By the contract of observables an observer whose subscription is closed is not called
  any more.
\<close>

datatype notification = Next LiveChannelEvent | StreamError string | Complete

definition notify ::
  "live_imports \<Rightarrow> LiveDataStreamOptions \<Rightarrow> perf \<Rightarrow> notification \<Rightarrow> live_query \<Rightarrow> live_query" where
  "notify lib options p n q =
     (if q_closed q then q
      else case n of
        StreamError err \<Rightarrow>
          (emit \<lparr> resp_state = Error, resp_data = [data_frame (q_data q)],
                  resp_key = Some (q_key q), resp_error = Some (toDataQueryError lib err) \<rparr>
             (q\<lparr>q_state := Error\<rparr>))\<lparr>q_closed := True\<rparr>
      | Complete \<Rightarrow>
          (if q_state q \<noteq> Error then q\<lparr>q_state := Done\<rparr> else q)
            \<lparr>q_completed := True, q_closed := True\<rparr>
      | Next (Message msg) \<Rightarrow> process options p msg q
      | Next (Status st err msg) \<Rightarrow>
          (if (case err of Some e \<Rightarrow> e \<noteq> [] | None \<Rightarrow> False)
           then (let error = toDataQueryError lib (case err of Some e \<Rightarrow> e | None \<Rightarrow> []);
                     error = error\<lparr>message := ''Streaming channel error: '' @ message error\<rparr>
                 in emit \<lparr> resp_state = Error, resp_data = [data_frame (q_data q)],
                           resp_key = Some (q_key q), resp_error = Some error \<rparr>
                      (q\<lparr>q_state := Error\<rparr>))
           else if st = Connected \<or> st = Pending
           then (case msg of Some m \<Rightarrow> process options p m q | None \<Rightarrow> q)
           else q))"

text \<open>The events of one subscription, each with the values of \<^verbatim>\<open>perf\<close> at its time.\<close>

definition deliver ::
  "live_imports \<Rightarrow> LiveDataStreamOptions \<Rightarrow> live_query \<Rightarrow> (perf \<times> notification) list \<Rightarrow> live_query" where
  "deliver lib options q ns = foldl (\<lambda>q (p, n). notify lib options p n q) q ns"

text \<open>
  Subscribing to the observable of \<^verbatim>\<open>getDataStream\<close>: what the subscriber has received when
  the subscription returns, whether it is complete by then, and the service afterwards.
\<close>

record subscribed_stream =
  received :: "DataQueryResponse list"
  completed :: bool
  query :: "live_query option"

definition subscribe_stream ::
  "perf \<Rightarrow> DataStream \<Rightarrow> CentrifugeSrv \<Rightarrow> nat \<Rightarrow> subscribed_stream \<times> CentrifugeSrv \<times> nat" where
  "subscribe_stream p obs srv counter =
     (case obs of
        Of r \<Rightarrow> (\<lparr> received = [r], completed = True, query = None \<rparr>, srv, counter)
      | LiveQuery options \<Rightarrow>
          (let (q, srv', counter') = subscribe_query p options srv counter
           in (\<lparr> received = [], completed = False, query = Some q \<rparr>, srv', counter')))"

section \<open>Invariant of the registry and example values\<close>

text \<open>
  Every entry of the map of open channels points to a channel object that exists, that
  has the entry's key as its id, whose teardown callback deletes that key, and that is
  in neither terminal state.
\<close>

definition registry_ok :: "CentrifugeSrv \<Rightarrow> bool" where
  "registry_ok s \<longleftrightarrow>
     (\<forall>k ch. open_chans s k = Some ch \<longrightarrow>
        ch < length (heap s) \<and> chan_id (heap s ! ch) = k \<and>
        shutdownCallback (heap s ! ch) = Some k \<and> \<not> is_terminal (heap s ! ch))"

text \<open>
  A service with the scope \<^verbatim>\<open>grafana\<close>, whose namespace \<^verbatim>\<open>dashboard\<close> has a support object
  that knows the path \<^verbatim>\<open>home\<close> only; the transport is not connected at construction and
  its \<^verbatim>\<open>subscribe\<close> never throws.
\<close>

definition example_support :: LiveChannelSupport where
  "example_support p =
     (if p = ''home'' then Some \<lparr> hasPresence = False, canPublish = False \<rparr> else None)"

definition example_scope :: GrafanaLiveScope where
  "example_scope ns = (if ns = ''dashboard'' then Some example_support else None)"

definition example_srv :: CentrifugeSrv where
  "example_srv = CentrifugeSrv_new [''grafana'' \<mapsto> example_scope] False (\<lambda>_. None)"

definition addr_abc :: LiveChannelAddress where
  "addr_abc = \<lparr> scope = ''grafana'', namespace = ''dashboard'', path = ''abc'' \<rparr>"

definition addr_home :: LiveChannelAddress where
  "addr_home = \<lparr> scope = ''grafana'', namespace = ''dashboard'', path = ''home'' \<rparr>"

text \<open>
  The channel an event is about, if it is about one. The teardown callbacks are in order
  when every channel that is not terminal still has its callback, for its own id.
\<close>

definition target :: "event \<Rightarrow> nat option" where
  "target e = (case e of
       SupportSettles ch \<Rightarrow> Some ch | BlockerSettles ch \<Rightarrow> Some ch | CatchRuns ch \<Rightarrow> Some ch
     | SubscribeAck ch \<Rightarrow> Some ch | SubscriptionLost ch \<Rightarrow> Some ch | ChannelDisconnect ch \<Rightarrow> Some ch
     | SubscribeError ch err \<Rightarrow> Some ch
     | _ \<Rightarrow> None)"

definition callbacks_ok :: "CentrifugeSrv \<Rightarrow> bool" where
  "callbacks_ok s \<longleftrightarrow>
     (\<forall>ch < length (heap s). \<not> is_terminal (heap s ! ch) \<longrightarrow>
        shutdownCallback (heap s ! ch) = Some (chan_id (heap s ! ch)))"

text \<open>
  Two addresses with one key: a path with a slash under the scope \<^verbatim>\<open>grafana\<close>, and the same
  text cut differently, whose scope is not registered.
\<close>

definition addr_deep :: LiveChannelAddress where
  "addr_deep = \<lparr> scope = ''grafana'', namespace = ''dashboard'', path = ''home/x'' \<rparr>"

definition addr_odd_scope :: LiveChannelAddress where
  "addr_odd_scope = \<lparr> scope = ''grafana/dashboard'', namespace = ''home'', path = ''x'' \<rparr>"

definition addr_unknown_scope :: LiveChannelAddress where
  "addr_unknown_scope = \<lparr> scope = ''nowhere'', namespace = ''dashboard'', path = ''home'' \<rparr>"

text \<open>An address whose scope is not registered and is a property of \<^verbatim>\<open>Object.prototype\<close>.\<close>

definition addr_constructor :: LiveChannelAddress where
  "addr_constructor = \<lparr> scope = ''constructor'', namespace = ''dashboard'', path = ''home'' \<rparr>"

text \<open>
  Example values for a data stream: imports under which an address is valid when its three
  parts are not empty, an address without path, a frame, and options with that frame.
\<close>

definition example_imports :: live_imports where
  "example_imports =
     \<lparr> isValidLiveChannelAddress = (\<lambda>a. scope a \<noteq> [] \<and> namespace a \<noteq> [] \<and> path a \<noteq> []),
       toDataQueryError = (\<lambda>e. \<lparr> message = e \<rparr>),
       JSON_stringify = channel_key \<rparr>"

definition addr_no_path :: LiveChannelAddress where
  "addr_no_path = \<lparr> scope = ''grafana'', namespace = ''dashboard'', path = [] \<rparr>"

definition example_frame :: DataFrame where
  "example_frame = \<lparr> df_fields = [''time'', ''value''], df_rows = [[Num 1, Num 10]], df_length = 1 \<rparr>"

definition example_options :: LiveDataStreamOptions where
  "example_options =
     \<lparr> opt_key = None, opt_addr = addr_no_path, opt_frame = Some example_frame,
       opt_buffer = None, opt_filter = None \<rparr>"

definition example_perf :: perf where
  "example_perf = \<lparr> perf_last = 0, perf_ok = True \<rparr>"

text \<open>
  A buffer of at most three rows that holds two, a running subscription with that buffer,
  messages that carry rows only, and options and a first message for a live query.
\<close>

definition example_buffer :: StreamingDataFrame where
  "example_buffer = \<lparr> sdf_fields = [''time'', ''value''], sdf_rows = [[Num 1, Num 10], [Num 2, Num 20]],
                       sdf_maxLength = Some 3 \<rparr>"

definition example_query :: live_query where
  "example_query = \<lparr> q_channel = 0, q_data = Some example_buffer, q_filtered = None,
      q_state = Streaming, q_key = Generated 0, q_last = 0, q_closed = False,
      q_completed = False, q_out = [] \<rparr>"

definition row_msg :: "cell list list \<Rightarrow> DataFrameJSON" where
  "row_msg rs = \<lparr> schema = None, rows = rs \<rparr>"

definition example_live_options :: LiveDataStreamOptions where
  "example_live_options =
     \<lparr> opt_key = None, opt_addr = addr_home, opt_frame = None,
       opt_buffer = Some \<lparr> maxLength = Some 3 \<rparr>, opt_filter = None \<rparr>"

definition example_message :: DataFrameJSON where
  "example_message = \<lparr> schema = Some [''time'', ''value''], rows = [[Num 1, Num 10]] \<rparr>"

text \<open>
  The status events on a channel's stream that carry an error.
\<close>

definition carries_error :: "LiveChannelEvent \<Rightarrow> bool" where
  "carries_error e = (case e of Status st (Some err) m \<Rightarrow> True | _ \<Rightarrow> False)"

definition error_events :: "CentrifugeLiveChannel \<Rightarrow> LiveChannelEvent list" where
  "error_events c = filter carries_error (stream c)"

text \<open>
  Predicates for the proofs about the initialisation. The initialisation is pending while
  its promise is suspended or rejected with the handler still to run. A channel is
  consistent when a subscription means a fulfilled initialisation, a pending initialisation
  means that the channel is not \<^verbatim>\<open>Invalid\<close>, and the stream carries no error unless the
  channel is \<^verbatim>\<open>Invalid\<close>, and then exactly one event, with the channel's error.
\<close>

definition pending_init :: "init_task \<Rightarrow> bool" where
  "pending_init t = (case t of
       AwaitSupport ans \<Rightarrow> True | AwaitBlocker \<Rightarrow> True | InitRejected e \<Rightarrow> True | _ \<Rightarrow> False)"

definition chan_consistent :: "CentrifugeLiveChannel \<Rightarrow> bool" where
  "chan_consistent c \<longleftrightarrow>
     (subscription c \<noteq> None \<longrightarrow> init c = InitResolved) \<and>
     (pending_init (init c) \<longrightarrow> status_state c \<noteq> Invalid) \<and>
     (status_state c \<noteq> Invalid \<longrightarrow> status_error c = None \<and> error_events c = []) \<and>
     (status_state c = Invalid \<longrightarrow>
        status_error c \<noteq> None \<and> error_events c = [Status Invalid (status_error c) None])"

text \<open>
  The initialisation of a channel is failing with a message when the channel has no
  subscription and the promise is on its way to the handler of \<^verbatim>\<open>.catch\<close> with that
  message: it awaits a support that is missing, or that lacks the path, or the call of
  \<^verbatim>\<open>subscribe\<close> for the channel's id will throw (\<open>thr\<close> says for which ids); or it is
  rejected; or the handler has run. \<open>phase\<close> counts how far the promise is.
\<close>

definition phase :: "init_task \<Rightarrow> nat" where
  "phase t = (case t of
       AwaitSupport ans \<Rightarrow> 1 | AwaitBlocker \<Rightarrow> 2 | InitRejected e \<Rightarrow> 3 | InitFailed \<Rightarrow> 4 | _ \<Rightarrow> 0)"

definition failing :: "(string \<Rightarrow> string option) \<Rightarrow> string \<Rightarrow> CentrifugeLiveChannel \<Rightarrow> bool" where
  "failing thr msg c \<longleftrightarrow>
     subscription c = None \<and> status_state c \<noteq> Connected \<and> status_state c \<noteq> Disconnected \<and>
     (case init c of
        AwaitSupport None \<Rightarrow> msg = namespace (chan_addr c) @ '' does not support streaming''
      | AwaitSupport (Some supp) \<Rightarrow>
          (case supp (path (chan_addr c)) of
             None \<Rightarrow> msg = ''unknown path: '' @ path (chan_addr c)
           | Some cfg \<Rightarrow> thr (chan_id c) = Some msg)
      | AwaitBlocker \<Rightarrow> thr (chan_id c) = Some msg
      | InitRejected e \<Rightarrow> e = msg
      | InitFailed \<Rightarrow> status_state c = Invalid \<and> status_error c = Some msg
      | _ \<Rightarrow> False)"

text \<open>
  While the transport has never been connected, the blocker is unresolved and no channel
  has a subscription. A channel is awaiting when it is pending, without subscription, and
  its initialisation is suspended at one of the two awaits.
\<close>

definition never_connected :: "CentrifugeSrv \<Rightarrow> bool" where
  "never_connected s \<longleftrightarrow>
     \<not> isConnected s \<and> \<not> connectionBlocker s \<and> subscribed s = [] \<and>
     (\<forall>ch < length (heap s). subscription (heap s ! ch) = None \<and>
        status_state (heap s ! ch) \<noteq> Connected \<and> status_state (heap s ! ch) \<noteq> Disconnected)"

definition awaiting :: "LiveChannelAddress \<Rightarrow> LiveChannelSupport \<Rightarrow> CentrifugeLiveChannel \<Rightarrow> bool" where
  "awaiting a supp c \<longleftrightarrow>
     chan_id c = channel_key a \<and> chan_addr c = a \<and> status_state c = Pending \<and>
     subscription c = None \<and> (init c = AwaitSupport (Some supp) \<or> init c = AwaitBlocker)"

section \<open>What getChannel returns\<close>

lemma getChannel_fresh:
  assumes "open_chans srv (channel_key a) = None" and "scopes srv (scope a) = Some sc"
  shows "getChannel srv a =
     (length (heap srv),
      srv\<lparr>heap := heap srv @ [(CentrifugeLiveChannel_new (channel_key a) a)
              \<lparr>shutdownCallback := Some (channel_key a), init := AwaitSupport (sc (namespace a))\<rparr>],
          open_chans := (open_chans srv)(channel_key a \<mapsto> length (heap srv))\<rparr>)"
  using assms by (simp add: getChannel_def scopes_get_def Let_def)


lemma getChannel_new_state:
  assumes "scopes srv (scope a) = Some sc" and "open_chans srv (channel_key a) = None"
    and "getChannel srv a = (ch, s1)"
  shows "ch = length (heap srv)"
    and "s1 = srv\<lparr>heap := heap srv @ [(CentrifugeLiveChannel_new (channel_key a) a)
              \<lparr>shutdownCallback := Some (channel_key a), init := AwaitSupport (sc (namespace a))\<rparr>],
          open_chans := (open_chans srv)(channel_key a \<mapsto> length (heap srv))\<rparr>"
  using assms by (auto simp: getChannel_fresh)

lemma getChannel_result:
  "fst (getChannel s a) = (case open_chans s (channel_key a) of Some ch \<Rightarrow> ch | None \<Rightarrow> length (heap s))"
  by (simp add: getChannel_def Let_def split: option.splits scope_slot.splits)

lemma getChannel_registered:
  "open_chans s (channel_key a) = Some ch \<Longrightarrow> getChannel s a = (ch, s)"
  by (simp add: getChannel_def)

lemma getChannel_twice:
  assumes "scopes s (scope a) \<noteq> None \<or> open_chans s (channel_key a) \<noteq> None"
  shows "getChannel (snd (getChannel s a)) a = (fst (getChannel s a), snd (getChannel s a))"
  using assms by (auto simp: getChannel_def scopes_get_def Let_def split: option.splits if_splits)

lemmas example_defs =
  example_srv_def CentrifugeSrv_new_def addr_abc_def addr_home_def example_scope_def
  example_support_def channel_key_def getChannel_def CentrifugeLiveChannel_new_def
  getErrorChannel_def run_def is_terminal_def scopes_get_def Object_prototype_keys_def


section \<open>The registry invariant holds in every reachable state\<close>

lemma registry_okI:
  assumes "\<And>k ch. open_chans s k = Some ch \<Longrightarrow>
        ch < length (heap s) \<and> chan_id (heap s ! ch) = k \<and>
        shutdownCallback (heap s ! ch) = Some k \<and> \<not> is_terminal (heap s ! ch)"
  shows "registry_ok s"
  using assms unfolding registry_ok_def by blast

lemma registry_okD:
  assumes "registry_ok s" and "open_chans s k = Some ch"
  shows "ch < length (heap s)" and "chan_id (heap s ! ch) = k"
    and "shutdownCallback (heap s ! ch) = Some k" and "\<not> is_terminal (heap s ! ch)"
  using assms unfolding registry_ok_def by blast+

lemma registry_ok_new: "registry_ok (CentrifugeSrv_new tbl c0 thr)"
  by (simp add: registry_ok_def CentrifugeSrv_new_def)

lemma registry_ok_getChannel:
  assumes "registry_ok s"
  shows "registry_ok (snd (getChannel s a))"
proof (rule registry_okI)
  fix k ch
  assume reg: "open_chans (snd (getChannel s a)) k = Some ch"
  show "ch < length (heap (snd (getChannel s a))) \<and> chan_id (heap (snd (getChannel s a)) ! ch) = k \<and>
        shutdownCallback (heap (snd (getChannel s a)) ! ch) = Some k \<and>
        \<not> is_terminal (heap (snd (getChannel s a)) ! ch)"
  proof (cases "open_chans s k = Some ch")
    case True
    note old = registry_okD [OF assms True]
    then show ?thesis
      by (simp add: getChannel_def Let_def nth_append split: option.splits scope_slot.splits)
  next
    case False
    with reg show ?thesis
      by (auto simp: getChannel_def Let_def is_terminal_def CentrifugeLiveChannel_new_def
          split: option.splits if_splits scope_slot.splits)
  qed
qed

lemma registry_ok_upd_same:
  assumes ok: "registry_ok s"
    and "\<And>c. chan_id (f c) = chan_id c"
    and "\<And>c. shutdownCallback (f c) = shutdownCallback c"
    and "\<And>c. \<not> is_terminal c \<Longrightarrow> \<not> is_terminal (f c)"
  shows "registry_ok (upd_chan ch f s)"
proof (rule registry_okI)
  fix k r
  assume "open_chans (upd_chan ch f s) k = Some r"
  then have "open_chans s k = Some r" by (simp add: upd_chan_def)
  note old = registry_okD [OF ok this]
  with assms(2-4) show "r < length (heap (upd_chan ch f s)) \<and> chan_id (heap (upd_chan ch f s) ! r) = k \<and>
        shutdownCallback (heap (upd_chan ch f s) ! r) = Some k \<and>
        \<not> is_terminal (heap (upd_chan ch f s) ! r)"
    by (cases "r = ch") (auto simp: upd_chan_def)
qed

lemma registry_ok_reject: "registry_ok s \<Longrightarrow> registry_ok (reject msg ch s)"
  unfolding reject_def by (rule registry_ok_upd_same) (auto simp: is_terminal_def)

lemma registry_ok_subscribed_update:
  "registry_ok (s\<lparr>subscribed := x\<rparr>) = registry_ok s"
  by (simp add: registry_ok_def)

lemma registry_ok_subscribe_channel: "registry_ok s \<Longrightarrow> registry_ok (subscribe_channel ch s)"
  unfolding subscribe_channel_def Let_def
  by (auto split: option.splits intro!: registry_ok_reject registry_ok_upd_same
      simp: registry_ok_subscribed_update is_terminal_def)

lemma registry_ok_initChannel_resume: "registry_ok s \<Longrightarrow> registry_ok (initChannel_resume ch s)"
  unfolding initChannel_resume_def Let_def initalize_def
  by (auto split: option.splits init_task.splits intro!: registry_ok_reject registry_ok_upd_same
      registry_ok_subscribe_channel simp: is_terminal_def)

lemma registry_ok_initChannel_unblocked: "registry_ok s \<Longrightarrow> registry_ok (initChannel_unblocked ch s)"
  unfolding initChannel_unblocked_def by (auto intro: registry_ok_subscribe_channel)

lemma registry_ok_on_subscribe: "registry_ok s \<Longrightarrow> registry_ok (on_subscribe ch s)"
  unfolding on_subscribe_def Let_def
  by (auto intro!: registry_ok_upd_same simp: is_terminal_def sendStatus_def)

lemma registry_ok_on_unsubscribe: "registry_ok s \<Longrightarrow> registry_ok (on_unsubscribe ch s)"
  unfolding on_unsubscribe_def Let_def
  by (auto intro!: registry_ok_upd_same simp: is_terminal_def sendStatus_def)

text \<open>Deleting the key of a channel that becomes terminal keeps the registry in order.\<close>

lemma registry_ok_delete:
  assumes ok: "registry_ok s"
    and others: "\<And>r. r \<noteq> ch \<Longrightarrow> r < length (heap s) \<Longrightarrow> heap s' ! r = heap s ! r"
    and len: "length (heap s') = length (heap s)"
    and keys: "\<And>k. open_chans s' k = Some ch \<Longrightarrow> False"
    and sub: "\<And>k r. open_chans s' k = Some r \<Longrightarrow> open_chans s k = Some r"
  shows "registry_ok s'"
proof (rule registry_okI)
  fix k r
  assume new: "open_chans s' k = Some r"
  then have "r \<noteq> ch" using keys by blast
  note old = registry_okD [OF ok sub [OF new]]
  with others [OF \<open>r \<noteq> ch\<close>] len
  show "r < length (heap s') \<and> chan_id (heap s' ! r) = k \<and>
        shutdownCallback (heap s' ! r) = Some k \<and> \<not> is_terminal (heap s' ! r)"
    by simp
qed

lemma registry_ok_disconnect:
  assumes ok: "registry_ok s" and "ch < length (heap s)"
  shows "registry_ok (disconnect ch s)"
proof (cases "is_terminal (heap s ! ch)")
  case True
  then show ?thesis using ok by (simp add: disconnect_def)
next
  case False
  show ?thesis
  proof (rule registry_ok_delete [OF ok, of ch])
    fix k assume "open_chans (disconnect ch s) k = Some ch"
    then have a: "open_chans s k = Some ch" and b: "shutdownCallback (heap s ! ch) \<noteq> Some k"
      using False assms(2)
      by (auto simp: disconnect_def run_shutdownCallback_def upd_chan_def sendStatus_def
          split: option.splits if_splits)
    from registry_okD(3) [OF ok a] b show False by simp
  qed (use False assms(2) in \<open>auto simp: disconnect_def run_shutdownCallback_def upd_chan_def sendStatus_def
          split: option.splits if_splits\<close>)
qed

lemma registry_ok_on_subscribe_error:
  assumes ok: "registry_ok s" and "ch < length (heap s)"
  shows "registry_ok (on_subscribe_error err ch s)"
proof (cases "subscription (heap s ! ch) \<noteq> None \<and> status_state (heap s ! ch) = Pending")
  case False
  then show ?thesis using ok by (auto simp: on_subscribe_error_def Let_def)
next
  case True
  show ?thesis
  proof (rule registry_ok_delete [OF ok, of ch])
    fix k assume "open_chans (on_subscribe_error err ch s) k = Some ch"
    then have a: "open_chans s k = Some ch" and b: "shutdownCallback (heap s ! ch) \<noteq> Some k"
      using True assms(2)
      by (auto simp: on_subscribe_error_def shutdownWithError_def run_shutdownCallback_def
          upd_chan_def sendStatus_def Let_def split: option.splits if_splits)
    from registry_okD(3) [OF ok a] b show False by simp
  qed (use True assms(2) in \<open>auto simp: on_subscribe_error_def shutdownWithError_def
          run_shutdownCallback_def upd_chan_def sendStatus_def Let_def split: option.splits if_splits\<close>)
qed

lemma registry_ok_catch_handler:
  assumes ok: "registry_ok s" and "ch < length (heap s)"
  shows "registry_ok (catch_handler ch s)"
proof (cases "\<exists>err. init (heap s ! ch) = InitRejected err")
  case False
  then show ?thesis using ok by (auto simp: catch_handler_def split: init_task.splits)
next
  case True
  then obtain err where err: "init (heap s ! ch) = InitRejected err" by blast
  show ?thesis
  proof (rule registry_ok_delete [OF ok, of ch])
    fix k assume "open_chans (catch_handler ch s) k = Some ch"
    then have a: "open_chans s k = Some ch" and b: "chan_id (heap s ! ch) \<noteq> k"
      using err assms(2)
      by (auto simp: catch_handler_def shutdownWithError_def run_shutdownCallback_def upd_chan_def
          sendStatus_def Let_def split: option.splits if_splits)
    from registry_okD(2) [OF ok a] b show False by simp
  qed (use err assms(2) in \<open>auto simp: catch_handler_def shutdownWithError_def run_shutdownCallback_def
          upd_chan_def sendStatus_def Let_def split: option.splits if_splits\<close>)
qed

lemma registry_ok_transport:
  "registry_ok (onConnect s) = registry_ok s" "registry_ok (onDisconnect s) = registry_ok s"
  by (simp_all add: registry_ok_def onConnect_def onDisconnect_def)

lemma registry_ok_step: "registry_ok s \<Longrightarrow> registry_ok (step s e)"
  by (cases e) (simp_all add: registry_ok_getChannel registry_ok_initChannel_resume
      registry_ok_initChannel_unblocked registry_ok_on_subscribe registry_ok_on_unsubscribe
      registry_ok_disconnect registry_ok_catch_handler registry_ok_on_subscribe_error
      registry_ok_transport)

lemma registry_ok_run: "registry_ok s \<Longrightarrow> registry_ok (run s es)"
  unfolding run_def by (induction es arbitrary: s) (auto simp: registry_ok_step)


section \<open>Events change one channel; terminal states are final\<close>

lemmas handler_defs =
  initChannel_resume_def initChannel_unblocked_def catch_handler_def on_subscribe_def
  on_unsubscribe_def on_subscribe_error_def disconnect_def subscribe_channel_def reject_def shutdownWithError_def
  run_shutdownCallback_def upd_chan_def sendStatus_def initalize_def Let_def

lemma length_heap_getChannel: "length (heap s) \<le> length (heap (snd (getChannel s a)))"
  by (simp add: getChannel_def Let_def split: option.splits scope_slot.splits)

lemma nth_heap_getChannel:
  "r < length (heap s) \<Longrightarrow> heap (snd (getChannel s a)) ! r = heap s ! r"
  by (simp add: getChannel_def Let_def nth_append split: option.splits scope_slot.splits)

lemma length_heap_handlers:
  "length (heap (initChannel_resume ch s)) = length (heap s)"
  "length (heap (initChannel_unblocked ch s)) = length (heap s)"
  "length (heap (catch_handler ch s)) = length (heap s)"
  "length (heap (on_subscribe ch s)) = length (heap s)"
  "length (heap (on_unsubscribe ch s)) = length (heap s)"
  "length (heap (disconnect ch s)) = length (heap s)"
  "length (heap (on_subscribe_error err ch s)) = length (heap s)"
  by (simp_all add: handler_defs split: option.splits init_task.splits)

lemma nth_heap_handlers:
  assumes "r \<noteq> ch"
  shows "heap (initChannel_resume ch s) ! r = heap s ! r"
    "heap (initChannel_unblocked ch s) ! r = heap s ! r"
    "heap (catch_handler ch s) ! r = heap s ! r"
    "heap (on_subscribe ch s) ! r = heap s ! r"
    "heap (on_unsubscribe ch s) ! r = heap s ! r"
    "heap (disconnect ch s) ! r = heap s ! r"
    "heap (on_subscribe_error err ch s) ! r = heap s ! r"
  using assms by (simp_all add: handler_defs split: option.splits init_task.splits)

lemma length_heap_step: "length (heap s) \<le> length (heap (step s e))"
  by (cases e) (simp_all add: length_heap_getChannel length_heap_handlers onConnect_def onDisconnect_def)

lemma nth_heap_step:
  "r < length (heap s) \<Longrightarrow> target e \<noteq> Some r \<Longrightarrow> heap (step s e) ! r = heap s ! r"
  by (cases e) (simp_all add: target_def nth_heap_getChannel nth_heap_handlers onConnect_def onDisconnect_def)

lemma terminal_handlers:
  assumes "ch < length (heap s)" and "is_terminal (heap s ! ch)"
  shows "is_terminal (heap (initChannel_resume ch s) ! ch)"
    "is_terminal (heap (initChannel_unblocked ch s) ! ch)"
    "is_terminal (heap (catch_handler ch s) ! ch)"
    "is_terminal (heap (on_subscribe ch s) ! ch)"
    "is_terminal (heap (on_unsubscribe ch s) ! ch)"
    "is_terminal (heap (disconnect ch s) ! ch)"
    "is_terminal (heap (on_subscribe_error err ch s) ! ch)"
  using assms by (auto simp: handler_defs is_terminal_def split: option.splits init_task.splits)

lemma terminal_step:
  assumes "ch < length (heap s)" and "is_terminal (heap s ! ch)"
  shows "is_terminal (heap (step s e) ! ch)"
proof (cases "target e = Some ch")
  case False
  then show ?thesis using assms by (simp add: nth_heap_step)
next
  case True
  then show ?thesis using assms by (cases e) (simp_all add: target_def terminal_handlers)
qed

lemma terminal_run:
  assumes "ch < length (heap s)" and "is_terminal (heap s ! ch)"
  shows "ch < length (heap (run s es)) \<and> is_terminal (heap (run s es) ! ch)"
  using assms unfolding run_def
proof (induction es arbitrary: s)
  case Nil
  then show ?case by simp
next
  case (Cons e es)
  have "ch < length (heap (step s e))"
    using Cons.prems(1) length_heap_step [of s e] by simp
  moreover have "is_terminal (heap (step s e) ! ch)"
    using Cons.prems by (rule terminal_step)
  ultimately show ?case using Cons.IH by simp
qed


lemma callbacks_ok_new: "callbacks_ok (CentrifugeSrv_new tbl c0 thr)"
  by (simp add: callbacks_ok_def CentrifugeSrv_new_def)

lemma callback_handlers:
  assumes "ch < length (heap s)"
    and "\<not> is_terminal (heap s ! ch) \<longrightarrow> shutdownCallback (heap s ! ch) = Some (chan_id (heap s ! ch))"
  shows "\<not> is_terminal (heap (initChannel_resume ch s) ! ch) \<longrightarrow>
      shutdownCallback (heap (initChannel_resume ch s) ! ch) = Some (chan_id (heap (initChannel_resume ch s) ! ch))"
    "\<not> is_terminal (heap (initChannel_unblocked ch s) ! ch) \<longrightarrow>
      shutdownCallback (heap (initChannel_unblocked ch s) ! ch) = Some (chan_id (heap (initChannel_unblocked ch s) ! ch))"
    "\<not> is_terminal (heap (catch_handler ch s) ! ch) \<longrightarrow>
      shutdownCallback (heap (catch_handler ch s) ! ch) = Some (chan_id (heap (catch_handler ch s) ! ch))"
    "\<not> is_terminal (heap (on_subscribe ch s) ! ch) \<longrightarrow>
      shutdownCallback (heap (on_subscribe ch s) ! ch) = Some (chan_id (heap (on_subscribe ch s) ! ch))"
    "\<not> is_terminal (heap (on_unsubscribe ch s) ! ch) \<longrightarrow>
      shutdownCallback (heap (on_unsubscribe ch s) ! ch) = Some (chan_id (heap (on_unsubscribe ch s) ! ch))"
    "\<not> is_terminal (heap (disconnect ch s) ! ch) \<longrightarrow>
      shutdownCallback (heap (disconnect ch s) ! ch) = Some (chan_id (heap (disconnect ch s) ! ch))"
    "\<not> is_terminal (heap (on_subscribe_error err ch s) ! ch) \<longrightarrow>
      shutdownCallback (heap (on_subscribe_error err ch s) ! ch)
        = Some (chan_id (heap (on_subscribe_error err ch s) ! ch))"
  using assms by (auto simp: handler_defs is_terminal_def split: option.splits init_task.splits)

lemma callbacks_ok_getChannel:
  assumes "callbacks_ok s"
  shows "callbacks_ok (snd (getChannel s a))"
  using assms
  by (auto simp: callbacks_ok_def getChannel_def Let_def nth_append is_terminal_def
      getErrorChannel_def CentrifugeLiveChannel_new_def less_Suc_eq
      split: option.splits scope_slot.splits)

lemma callbacks_ok_step:
  assumes "callbacks_ok s"
  shows "callbacks_ok (step s e)"
proof (cases "target e")
  case None
  then show ?thesis using assms
    by (cases e) (simp_all add: target_def callbacks_ok_getChannel,
        simp_all add: callbacks_ok_def onConnect_def onDisconnect_def)
next
  case (Some ch)
  show ?thesis
    unfolding callbacks_ok_def
  proof (intro allI impI)
    fix r
    assume r: "r < length (heap (step s e))" and nt: "\<not> is_terminal (heap (step s e) ! r)"
    have len: "length (heap (step s e)) = length (heap s)"
      using Some by (cases e) (simp_all add: target_def length_heap_handlers)
    show "shutdownCallback (heap (step s e) ! r) = Some (chan_id (heap (step s e) ! r))"
    proof (cases "r = ch")
      case False
      then have "heap (step s e) ! r = heap s ! r"
        using r len Some by (simp add: nth_heap_step)
      then show ?thesis using assms r len nt by (simp add: callbacks_ok_def)
    next
      case True
      have old: "\<not> is_terminal (heap s ! ch) \<longrightarrow>
          shutdownCallback (heap s ! ch) = Some (chan_id (heap s ! ch))"
        using assms r len True by (simp add: callbacks_ok_def)
      have c: "ch < length (heap s)" using r len True by simp
      show ?thesis
        using Some nt True callback_handlers [OF c old]
        by (cases e) (simp_all add: target_def c)
    qed
  qed
qed

lemma invariants_run:
  assumes "registry_ok s" and "callbacks_ok s"
  shows "registry_ok (run s es) \<and> callbacks_ok (run s es)"
  using assms unfolding run_def
  by (induction es arbitrary: s) (simp_all add: registry_ok_step callbacks_ok_step)

lemma reachable_ok:
  "registry_ok (run (CentrifugeSrv_new tbl c0 thr) es)"
  "callbacks_ok (run (CentrifugeSrv_new tbl c0 thr) es)"
  using invariants_run [OF registry_ok_new callbacks_ok_new] by simp_all

lemma teardown_deletes_key:
  assumes ch: "ch < length (heap s)" and cb: "callbacks_ok s"
    and before: "\<not> is_terminal (heap s ! ch)" and after: "is_terminal (heap (step s e) ! ch)"
  shows "open_chans (step s e) (chan_id (heap s ! ch)) = None"
proof -
  have t: "target e = Some ch"
  proof (rule ccontr)
    assume "target e \<noteq> Some ch"
    then have "heap (step s e) ! ch = heap s ! ch" using ch by (simp add: nth_heap_step)
    with before after show False by simp
  qed
  have k: "shutdownCallback (heap s ! ch) = Some (chan_id (heap s ! ch))"
    using cb ch before by (simp add: callbacks_ok_def)
  show ?thesis
    using t ch before after k
    by (cases e) (auto simp: target_def handler_defs is_terminal_def
        split: option.splits init_task.splits if_splits)
qed

lemma scopes_step: "scopes (step s e) = scopes s"
  by (cases e) (simp_all add: getChannel_def handler_defs onConnect_def onDisconnect_def
      split: option.splits init_task.splits scope_slot.splits)



lemma run_append: "run s (es @ es') = run (run s es) es'"
  by (simp add: run_def)

lemma scopes_run: "scopes (run s es) = scopes s"
  unfolding run_def by (induction es arbitrary: s) (simp_all add: scopes_step)

lemma subscribe_throws_step: "subscribe_throws (step s e) = subscribe_throws s"
  by (cases e) (simp_all add: getChannel_def handler_defs onConnect_def onDisconnect_def
      split: option.splits init_task.splits scope_slot.splits)

lemma subscribe_throws_run: "subscribe_throws (run s es) = subscribe_throws s"
  unfolding run_def by (induction es arbitrary: s) (simp_all add: subscribe_throws_step)


text \<open>What the continuations of the initialisation and the handler of its rejection do.\<close>

lemma upd_chan_fields:
  "heap (upd_chan ch f s) = (heap s)[ch := f (heap s ! ch)]"
  "open_chans (upd_chan ch f s) = open_chans s"
  "scopes (upd_chan ch f s) = scopes s"
  "isConnected (upd_chan ch f s) = isConnected s"
  "subscribe_throws (upd_chan ch f s) = subscribe_throws s"
  "subscribed (upd_chan ch f s) = subscribed s"
  "connectionState (upd_chan ch f s) = connectionState s"
  "connectionBlocker (upd_chan ch f s) = connectionBlocker s"
  by (simp_all add: upd_chan_def)

lemma reject_fields:
  "heap (reject msg ch s) = (heap s)[ch := (heap s ! ch)\<lparr>init := InitRejected msg\<rparr>]"
  "open_chans (reject msg ch s) = open_chans s"
  "isConnected (reject msg ch s) = isConnected s"
  "subscribe_throws (reject msg ch s) = subscribe_throws s"
  "subscribed (reject msg ch s) = subscribed s"
  "connectionBlocker (reject msg ch s) = connectionBlocker s"
  by (simp_all add: reject_def upd_chan_fields)

lemma resume_effect:
  shows "init (heap s ! ch) = AwaitSupport None \<Longrightarrow> initChannel_resume ch s =
      reject (namespace (chan_addr (heap s ! ch)) @ '' does not support streaming'') ch s"
    and "init (heap s ! ch) = AwaitSupport (Some supp) \<Longrightarrow>
      supp (path (chan_addr (heap s ! ch))) = None \<Longrightarrow>
      initChannel_resume ch s = reject (''unknown path: '' @ path (chan_addr (heap s ! ch))) ch s"
    and "init (heap s ! ch) = AwaitSupport (Some supp) \<Longrightarrow>
      supp (path (chan_addr (heap s ! ch))) = Some cfg \<Longrightarrow> \<not> isConnected s \<Longrightarrow>
      initChannel_resume ch s =
        upd_chan ch (\<lambda>c. c\<lparr>init := AwaitBlocker\<rparr>) (upd_chan ch (initalize cfg) s)"
    and "init (heap s ! ch) = AwaitSupport (Some supp) \<Longrightarrow>
      supp (path (chan_addr (heap s ! ch))) = Some cfg \<Longrightarrow> isConnected s \<Longrightarrow>
      initChannel_resume ch s = subscribe_channel ch (upd_chan ch (initalize cfg) s)"
  by (simp_all add: initChannel_resume_def Let_def upd_chan_fields)

lemma resume_other:
  assumes "\<forall>ans. init (heap s ! ch) \<noteq> AwaitSupport ans"
  shows "initChannel_resume ch s = s"
  using assms by (simp add: initChannel_resume_def Let_def split: init_task.splits)

lemma unblocked_other:
  assumes "init (heap s ! ch) \<noteq> AwaitBlocker \<or> \<not> connectionBlocker s"
  shows "initChannel_unblocked ch s = s"
  using assms by (auto simp: initChannel_unblocked_def)

lemma subscribe_effect:
  shows "subscribe_throws s (chan_id (heap s ! ch)) = Some e \<Longrightarrow> subscribe_channel ch s = reject e ch s"
    and "subscribe_throws s (chan_id (heap s ! ch)) = None \<Longrightarrow> subscribe_channel ch s =
       upd_chan ch (\<lambda>c. c\<lparr>subscription := Some (chan_id c), init := InitResolved\<rparr>)
            (s\<lparr>subscribed := subscribed s @ [chan_id (heap s ! ch)]\<rparr>)"
  by (simp_all add: subscribe_channel_def Let_def)

lemma catch_effect:
  assumes "ch < length (heap s)" and "init (heap s ! ch) = InitRejected err"
  shows "status_state (heap (catch_handler ch s) ! ch) = Invalid"
    and "status_error (heap (catch_handler ch s) ! ch) = Some err"
    and "stream (heap (catch_handler ch s) ! ch) = stream (heap s ! ch) @ [Status Invalid (Some err) None]"
    and "init (heap (catch_handler ch s) ! ch) = InitFailed"
    and "subscription (heap (catch_handler ch s) ! ch) = subscription (heap s ! ch)"
    and "open_chans (catch_handler ch s) (chan_id (heap s ! ch)) = None"
    and "open_chans s k \<noteq> Some r \<Longrightarrow> open_chans (catch_handler ch s) k \<noteq> Some r"
  using assms
  by (simp_all add: catch_handler_def shutdownWithError_def run_shutdownCallback_def sendStatus_def
      Let_def upd_chan_fields split: option.splits)


section \<open>getChannel returns a pending channel at once\<close>




section \<open>An address with a scope that is not registered\<close>

lemma getChannel_undefined_scope:
  assumes reach: "srv = run (CentrifugeSrv_new tbl c0 thr) es0"
    and unknown: "scopes_get srv (scope a) = Undefined" and fresh: "open_chans srv (channel_key a) = None"
    and g: "getChannel srv a = (ch, srv')"
  shows "ch = length (heap srv) \<and>
     heap srv' = heap srv @ [getErrorChannel ''invalid scope'' (channel_key a) a] \<and>
     status_state (heap srv' ! ch) = Invalid \<and>
     status_error (heap srv' ! ch) = Some ''invalid scope'' \<and>
     stream (heap srv' ! ch) = [Status Invalid (Some ''invalid scope'') None] \<and>
     init (heap srv' ! ch) = NoInit \<and>
     open_chans srv' = open_chans srv \<and>
     (\<forall>es k. open_chans (run srv' es) k \<noteq> Some ch)"
proof -
  have now: "ch = length (heap srv) \<and>
     heap srv' = heap srv @ [getErrorChannel ''invalid scope'' (channel_key a) a] \<and>
     status_state (heap srv' ! ch) = Invalid \<and>
     status_error (heap srv' ! ch) = Some ''invalid scope'' \<and>
     stream (heap srv' ! ch) = [Status Invalid (Some ''invalid scope'') None] \<and>
     init (heap srv' ! ch) = NoInit \<and>
     open_chans srv' = open_chans srv"
    using unknown fresh g by (auto simp: getChannel_def Let_def getErrorChannel_def)
  have later: "open_chans (run srv' es) k \<noteq> Some ch" for es k
  proof
    assume k: "open_chans (run srv' es) k = Some ch"
    have "srv' = step srv (GetChannel a)" using g by simp
    then have "run srv' es = run (CentrifugeSrv_new tbl c0 thr) (es0 @ GetChannel a # es)"
      by (simp add: reach run_def)
    then have ok: "registry_ok (run srv' es)" by (simp add: reachable_ok(1))
    have "ch < length (heap srv')" and "is_terminal (heap srv' ! ch)"
      using now by (simp_all add: is_terminal_def getErrorChannel_def)
    then have "is_terminal (heap (run srv' es) ! ch)" using terminal_run by blast
    with registry_okD(4) [OF ok k] show False by simp
  qed
  show ?thesis using now later by blast
qed

lemma getChannel_undefined_scope_example:
  "scopes_get example_srv (scope addr_unknown_scope) = Undefined \<and>
   open_chans example_srv (channel_key addr_unknown_scope) = None \<and>
   (\<exists>srv'. getChannel example_srv addr_unknown_scope = (0, srv') \<and>
      status_state (heap srv' ! 0) = Invalid \<and>
      status_error (heap srv' ! 0) = Some ''invalid scope'' \<and>
      open_chans srv' = open_chans example_srv)"
proof -
  have h0: "example_srv = run (CentrifugeSrv_new [''grafana'' \<mapsto> example_scope] False (\<lambda>_. None)) []"
    by (simp add: example_srv_def run_def)
  have h1: "scopes_get example_srv (scope addr_unknown_scope) = Undefined"
    by (simp add: scopes_get_def Object_prototype_keys_def example_srv_def CentrifugeSrv_new_def
        addr_unknown_scope_def)
  have h2: "open_chans example_srv (channel_key addr_unknown_scope) = None"
    by (simp add: example_srv_def CentrifugeSrv_new_def)
  have h3: "heap example_srv = []"
    by (simp add: example_srv_def CentrifugeSrv_new_def)
  obtain ch srv' where g: "getChannel example_srv addr_unknown_scope = (ch, srv')"
    by (cases "getChannel example_srv addr_unknown_scope")
  from getChannel_undefined_scope [OF h0 h1 h2 g] show ?thesis
    using h1 h2 g by (auto simp: h3)
qed

text \<open>
  C3. For a scope that is not registered and is not a property of \<^verbatim>\<open>Object.prototype\<close>, and
  a key that is not in the map, \<^verbatim>\<open>getChannel\<close> returns the error channel and leaves the map
  alone (lemma \<open>getChannel_undefined_scope\<close>). As stated, for every address whose scope
  is not registered, the claim fails, against the comment of lines 106 to 109.

  The table of scopes is an object literal, and the scope \<^verbatim>\<open>constructor\<close> is found on its
  prototype: the test of line 118 passes, \<^verbatim>\<open>getChannel\<close> returns a channel that is
  \<^verbatim>\<open>Pending\<close> with no error and registers it, a second call returns the same channel, and
  when the handler of \<^verbatim>\<open>.catch\<close> runs the channel is \<^verbatim>\<open>Invalid\<close> with a \<^verbatim>\<open>TypeError\<close>, not
  with \<^verbatim>\<open>invalid scope\<close>.

  The map of open channels is looked up by key before the scope is tested: the address
  \<open>addr_odd_scope\<close>, whose scope is no property of the table at all, has the key of the open
  channel of \<open>addr_deep\<close>, and \<^verbatim>\<open>getChannel\<close> returns that channel, which is \<^verbatim>\<open>Pending\<close> and
  in the map.
\<close>

theorem getChannel_unregistered_scope_registers_channel:
  "scopes example_srv (scope addr_constructor) = None \<and>
   fst (getChannel example_srv addr_constructor) = 0 \<and>
   status_state (heap (snd (getChannel example_srv addr_constructor)) ! 0) = Pending \<and>
   status_error (heap (snd (getChannel example_srv addr_constructor)) ! 0) = None \<and>
   stream (heap (snd (getChannel example_srv addr_constructor)) ! 0) = [] \<and>
   open_chans (snd (getChannel example_srv addr_constructor)) (channel_key addr_constructor) = Some 0 \<and>
   fst (getChannel (run example_srv [GetChannel addr_constructor]) addr_constructor) = 0 \<and>
   status_state (heap (run example_srv [GetChannel addr_constructor, CatchRuns 0]) ! 0) = Invalid \<and>
   status_error (heap (run example_srv [GetChannel addr_constructor, CatchRuns 0]) ! 0)
     = Some ''TypeError: scope.getChannelSupport is not a function'' \<and>
   scopes (run example_srv [GetChannel addr_deep]) (scope addr_odd_scope) = None \<and>
   scopes_get (run example_srv [GetChannel addr_deep]) (scope addr_odd_scope) = Undefined \<and>
   fst (getChannel (run example_srv [GetChannel addr_deep]) addr_odd_scope) = 0 \<and>
   snd (getChannel (run example_srv [GetChannel addr_deep]) addr_odd_scope)
     = run example_srv [GetChannel addr_deep] \<and>
   chan_addr (heap (run example_srv [GetChannel addr_deep]) ! 0) = addr_deep \<and>
   status_state (heap (run example_srv [GetChannel addr_deep]) ! 0) = Pending \<and>
   status_error (heap (run example_srv [GetChannel addr_deep]) ! 0) = None \<and>
   open_chans (run example_srv [GetChannel addr_deep]) (channel_key addr_odd_scope) = Some 0"
  by (simp add: example_defs handler_defs addr_constructor_def addr_deep_def addr_odd_scope_def
      not_a_function_def)

section \<open>A terminal channel is replaced\<close>

text \<open>
  C5. In every reachable state a channel that is in \<^verbatim>\<open>Shutdown\<close> or \<^verbatim>\<open>Invalid\<close> is not in the
  map of open channels, \<^verbatim>\<open>getChannel\<close> does not return it for any address, and it stays
  terminal. The event that makes a channel terminal deletes the channel's key from the map,
  so that \<^verbatim>\<open>getChannel\<close> for an address with that key and a registered scope then makes a
  new channel object, in \<^verbatim>\<open>Pending\<close>, with a new initialisation.
\<close>

theorem terminal_channel_is_replaced:
  assumes s: "s = run (CentrifugeSrv_new tbl c0 thr) es" and ch: "ch < length (heap s)"
  shows "(is_terminal (heap s ! ch) \<longrightarrow>
            (\<forall>k. open_chans s k \<noteq> Some ch) \<and> (\<forall>a. fst (getChannel s a) \<noteq> ch) \<and>
            (\<forall>es'. is_terminal (heap (run s es') ! ch))) \<and>
         (\<forall>e. \<not> is_terminal (heap s ! ch) \<and> is_terminal (heap (step s e) ! ch) \<longrightarrow>
            open_chans (step s e) (chan_id (heap s ! ch)) = None \<and>
            (\<forall>a sc. channel_key a = chan_id (heap s ! ch) \<and> scopes s (scope a) = Some sc \<longrightarrow>
               (\<exists>srv'. getChannel (step s e) a = (length (heap (step s e)), srv') \<and>
                  length (heap (step s e)) \<noteq> ch \<and>
                  status_state (heap srv' ! length (heap (step s e))) = Pending \<and>
                  init (heap srv' ! length (heap (step s e))) = AwaitSupport (sc (namespace a)))))"
proof (intro conjI impI allI)
  assume t: "is_terminal (heap s ! ch)"
  have ok: "registry_ok s" using s reachable_ok(1) by simp
  show no: "open_chans s k \<noteq> Some ch" for k
    using registry_okD(4) [OF ok, of k ch] t by blast
  show "fst (getChannel s a) \<noteq> ch" for a
    using no [of "channel_key a"] ch by (auto simp: getChannel_result split: option.splits)
  show "is_terminal (heap (run s es') ! ch)" for es'
    using terminal_run [OF ch t] by simp
next
  fix e
  assume a: "\<not> is_terminal (heap s ! ch) \<and> is_terminal (heap (step s e) ! ch)"
  have cb: "callbacks_ok s" using s reachable_ok(2) by simp
  show del: "open_chans (step s e) (chan_id (heap s ! ch)) = None"
    using teardown_deletes_key [OF ch cb] a by simp
  fix a' sc
  assume b: "channel_key a' = chan_id (heap s ! ch) \<and> scopes s (scope a') = Some sc"
  have k: "open_chans (step s e) (channel_key a') = None" using del b by simp
  have sc: "scopes (step s e) (scope a') = Some sc" using b by (simp add: scopes_step)
  obtain r srv' where g: "getChannel (step s e) a' = (r, srv')"
    by (cases "getChannel (step s e) a'")
  have "length (heap (step s e)) \<noteq> ch" using ch length_heap_step [of s e] by simp
  with getChannel_new_state [OF sc k g] g
  show "\<exists>srv'. getChannel (step s e) a' = (length (heap (step s e)), srv') \<and>
                  length (heap (step s e)) \<noteq> ch \<and>
                  status_state (heap srv' ! length (heap (step s e))) = Pending \<and>
                  init (heap srv' ! length (heap (step s e))) = AwaitSupport (sc (namespace a'))"
    by (simp add: CentrifugeLiveChannel_new_def)
qed

theorem terminal_channel_is_replaced_witness:
  "0 < length (heap (run example_srv [GetChannel addr_abc, SupportSettles 0])) \<and>
   \<not> is_terminal (heap (run example_srv [GetChannel addr_abc, SupportSettles 0]) ! 0) \<and>
   is_terminal (heap (step (run example_srv [GetChannel addr_abc, SupportSettles 0]) (CatchRuns 0)) ! 0) \<and>
   open_chans (step (run example_srv [GetChannel addr_abc, SupportSettles 0]) (CatchRuns 0))
     (channel_key addr_abc) = None \<and>
   fst (getChannel (step (run example_srv [GetChannel addr_abc, SupportSettles 0]) (CatchRuns 0)) addr_abc) = 1 \<and>
   0 < length (heap (run example_srv [GetChannel addr_abc, SupportSettles 0, CatchRuns 0])) \<and>
   is_terminal (heap (run example_srv [GetChannel addr_abc, SupportSettles 0, CatchRuns 0]) ! 0) \<and>
   open_chans (run example_srv [GetChannel addr_abc, SupportSettles 0, CatchRuns 0])
     (channel_key addr_abc) \<noteq> Some 0 \<and>
   fst (getChannel (run example_srv [GetChannel addr_abc, SupportSettles 0, CatchRuns 0]) addr_abc) \<noteq> 0"
proof -
  have h1: "run example_srv [GetChannel addr_abc, SupportSettles 0] =
      run (CentrifugeSrv_new [''grafana'' \<mapsto> example_scope] False (\<lambda>_. None))
        [GetChannel addr_abc, SupportSettles 0]"
    by (simp add: example_srv_def)
  have h2: "0 < length (heap (run example_srv [GetChannel addr_abc, SupportSettles 0]))"
    by (simp add: example_defs handler_defs)
  have h3: "run example_srv [GetChannel addr_abc, SupportSettles 0, CatchRuns 0] =
      run (CentrifugeSrv_new [''grafana'' \<mapsto> example_scope] False (\<lambda>_. None))
        [GetChannel addr_abc, SupportSettles 0, CatchRuns 0]"
    by (simp add: example_srv_def)
  have h4: "0 < length (heap (run example_srv [GetChannel addr_abc, SupportSettles 0, CatchRuns 0]))"
    by (simp add: example_defs handler_defs)
  have h5: "is_terminal (heap (run example_srv [GetChannel addr_abc, SupportSettles 0, CatchRuns 0]) ! 0)"
    by (simp add: example_defs handler_defs)
  have first: "\<not> is_terminal (heap (run example_srv [GetChannel addr_abc, SupportSettles 0]) ! 0) \<and>
     is_terminal (heap (step (run example_srv [GetChannel addr_abc, SupportSettles 0]) (CatchRuns 0)) ! 0) \<and>
     open_chans (step (run example_srv [GetChannel addr_abc, SupportSettles 0]) (CatchRuns 0))
       (channel_key addr_abc) = None \<and>
     fst (getChannel (step (run example_srv [GetChannel addr_abc, SupportSettles 0]) (CatchRuns 0)) addr_abc) = 1"
    using terminal_channel_is_replaced [OF h1 h2]
    by (simp add: example_defs handler_defs)
  have second: "open_chans (run example_srv [GetChannel addr_abc, SupportSettles 0, CatchRuns 0])
       (channel_key addr_abc) \<noteq> Some 0 \<and>
     fst (getChannel (run example_srv [GetChannel addr_abc, SupportSettles 0, CatchRuns 0]) addr_abc) \<noteq> 0"
    using terminal_channel_is_replaced [OF h3 h4] h5 by blast
  show ?thesis using h2 h4 h5 first second by blast
qed

section \<open>A failed initialisation\<close>

lemmas consistent_defs = chan_consistent_def error_events_def carries_error_def pending_init_def

lemma consistent_handlers:
  assumes "ch < length (heap s)" and "chan_consistent (heap s ! ch)"
  shows "chan_consistent (heap (initChannel_resume ch s) ! ch)"
    "chan_consistent (heap (initChannel_unblocked ch s) ! ch)"
    "chan_consistent (heap (catch_handler ch s) ! ch)"
    "chan_consistent (heap (on_subscribe ch s) ! ch)"
    "chan_consistent (heap (on_unsubscribe ch s) ! ch)"
    "chan_consistent (heap (disconnect ch s) ! ch)"
    "chan_consistent (heap (on_subscribe_error err ch s) ! ch)"
  using assms
  by (auto simp: handler_defs consistent_defs is_terminal_def
      split: option.splits init_task.splits)

lemma consistent_step:
  assumes "ch < length (heap s)" and "chan_consistent (heap s ! ch)"
  shows "chan_consistent (heap (step s e) ! ch)"
proof (cases "target e = Some ch")
  case False
  then show ?thesis using assms by (simp add: nth_heap_step)
next
  case True
  then show ?thesis using assms by (cases e) (simp_all add: target_def consistent_handlers)
qed

lemma consistent_run:
  assumes "ch < length (heap s)" and "chan_consistent (heap s ! ch)"
  shows "ch < length (heap (run s es)) \<and> chan_consistent (heap (run s es) ! ch)"
  using assms unfolding run_def
proof (induction es arbitrary: s)
  case Nil
  then show ?case by simp
next
  case (Cons e es)
  have "ch < length (heap (step s e))"
    using Cons.prems(1) length_heap_step [of s e] by simp
  moreover have "chan_consistent (heap (step s e) ! ch)"
    using Cons.prems by (rule consistent_step)
  ultimately show ?case using Cons.IH by simp
qed

lemma settled_handlers:
  assumes "status_state (heap s ! ch) = Invalid" and "\<not> pending_init (init (heap s ! ch))"
  shows "heap (initChannel_resume ch s) ! ch = heap s ! ch"
    "heap (initChannel_unblocked ch s) ! ch = heap s ! ch"
    "heap (catch_handler ch s) ! ch = heap s ! ch"
    "heap (on_subscribe ch s) ! ch = heap s ! ch"
    "heap (on_unsubscribe ch s) ! ch = heap s ! ch"
    "heap (disconnect ch s) ! ch = heap s ! ch"
    "heap (on_subscribe_error err ch s) ! ch = heap s ! ch"
  using assms
  by (auto simp: initChannel_resume_def initChannel_unblocked_def catch_handler_def
      on_subscribe_def on_unsubscribe_def disconnect_def on_subscribe_error_def
      pending_init_def is_terminal_def Let_def split: init_task.splits)

lemma settled_step:
  assumes "ch < length (heap s)" and "status_state (heap s ! ch) = Invalid"
    and "\<not> pending_init (init (heap s ! ch))"
  shows "heap (step s e) ! ch = heap s ! ch"
proof (cases "target e = Some ch")
  case False
  then show ?thesis using assms by (simp add: nth_heap_step)
next
  case True
  then show ?thesis using assms by (cases e) (simp_all add: target_def settled_handlers)
qed

lemma settled_run:
  assumes "ch < length (heap s)" and "status_state (heap s ! ch) = Invalid"
    and "\<not> pending_init (init (heap s ! ch))"
  shows "ch < length (heap (run s es)) \<and> heap (run s es) ! ch = heap s ! ch"
  using assms unfolding run_def
proof (induction es arbitrary: s)
  case Nil
  then show ?case by simp
next
  case (Cons e es)
  have 1: "ch < length (heap (step s e))"
    using Cons.prems(1) length_heap_step [of s e] by simp
  have 2: "heap (step s e) ! ch = heap s ! ch"
    using Cons.prems by (rule settled_step)
  show ?case using Cons.IH [OF 1] 2 Cons.prems(2,3) by simp
qed

lemma failing_handlers:
  assumes "ch < length (heap s)" and "failing thr msg (heap s ! ch)"
    and "\<forall>k m. thr k = Some m \<longrightarrow> subscribe_throws s k = Some m"
  shows "failing thr msg (heap (initChannel_resume ch s) ! ch) \<and>
      phase (init (heap s ! ch)) \<le> phase (init (heap (initChannel_resume ch s) ! ch))"
    "failing thr msg (heap (initChannel_unblocked ch s) ! ch) \<and>
      phase (init (heap s ! ch)) \<le> phase (init (heap (initChannel_unblocked ch s) ! ch))"
    "failing thr msg (heap (catch_handler ch s) ! ch) \<and>
      phase (init (heap s ! ch)) \<le> phase (init (heap (catch_handler ch s) ! ch))"
    "failing thr msg (heap (on_subscribe ch s) ! ch) \<and>
      phase (init (heap s ! ch)) \<le> phase (init (heap (on_subscribe ch s) ! ch))"
    "failing thr msg (heap (on_unsubscribe ch s) ! ch) \<and>
      phase (init (heap s ! ch)) \<le> phase (init (heap (on_unsubscribe ch s) ! ch))"
    "failing thr msg (heap (disconnect ch s) ! ch) \<and>
      phase (init (heap s ! ch)) \<le> phase (init (heap (disconnect ch s) ! ch))"
    "failing thr msg (heap (on_subscribe_error err ch s) ! ch) \<and>
      phase (init (heap s ! ch)) \<le> phase (init (heap (on_subscribe_error err ch s) ! ch))"
  using assms
  by (auto simp: handler_defs failing_def phase_def is_terminal_def
      split: option.splits init_task.splits)


lemma failing_step:
  assumes "ch < length (heap s)" and "failing thr msg (heap s ! ch)"
    and "\<forall>k m. thr k = Some m \<longrightarrow> subscribe_throws s k = Some m"
  shows "failing thr msg (heap (step s e) ! ch) \<and>
      phase (init (heap s ! ch)) \<le> phase (init (heap (step s e) ! ch))"
proof (cases "target e = Some ch")
  case False
  then show ?thesis using assms by (simp add: nth_heap_step)
next
  case True
  then show ?thesis using failing_handlers [OF assms] assms(1)
    by (cases e) (simp_all add: target_def)
qed

lemma failing_run:
  assumes "ch < length (heap s)" and "failing thr msg (heap s ! ch)"
    and "\<forall>k m. thr k = Some m \<longrightarrow> subscribe_throws s k = Some m"
    and "n \<le> phase (init (heap s ! ch))"
  shows "ch < length (heap (run s es)) \<and> failing thr msg (heap (run s es) ! ch) \<and>
      n \<le> phase (init (heap (run s es) ! ch))"
  using assms unfolding run_def
proof (induction es arbitrary: s)
  case Nil
  then show ?case by simp
next
  case (Cons e es)
  have 1: "ch < length (heap (step s e))"
    using Cons.prems(1) length_heap_step [of s e] by simp
  note st = failing_step [OF Cons.prems(1,2,3), of e]
  have 3: "\<forall>k m. thr k = Some m \<longrightarrow> subscribe_throws (step s e) k = Some m"
    using Cons.prems(3) by (simp add: subscribe_throws_step)
  have 4: "n \<le> phase (init (heap (step s e) ! ch))" using st Cons.prems(4) by simp
  show ?case using Cons.IH [OF 1 _ 3 4] st by simp
qed

lemma support_settles_progress:
  assumes "ch < length (heap s)" and "failing thr msg (heap s ! ch)"
    and "\<forall>k m. thr k = Some m \<longrightarrow> subscribe_throws s k = Some m"
  shows "2 \<le> phase (init (heap (step s (SupportSettles ch)) ! ch))"
  using assms
  by (auto simp: handler_defs failing_def phase_def split: option.splits init_task.splits)

lemma support_settles_rejects:
  assumes "ch < length (heap s)" and "failing (\<lambda>k. None) msg (heap s ! ch)"
  shows "3 \<le> phase (init (heap (step s (SupportSettles ch)) ! ch))"
  using assms
  by (auto simp: handler_defs failing_def phase_def split: option.splits init_task.splits)

lemma blocker_settles_progress:
  assumes "ch < length (heap s)" and "failing thr msg (heap s ! ch)"
    and "\<forall>k m. thr k = Some m \<longrightarrow> subscribe_throws s k = Some m"
    and "connectionBlocker s" and "2 \<le> phase (init (heap s ! ch))"
  shows "3 \<le> phase (init (heap (step s (BlockerSettles ch)) ! ch))"
  using assms
  by (auto simp: handler_defs failing_def phase_def split: option.splits init_task.splits)

lemma catch_runs_progress:
  assumes "ch < length (heap s)" and "failing thr msg (heap s ! ch)"
    and "3 \<le> phase (init (heap s ! ch))"
  shows "4 \<le> phase (init (heap (step s (CatchRuns ch)) ! ch))"
  using assms
  by (auto simp: handler_defs failing_def phase_def split: option.splits init_task.splits)

lemma failing_done:
  assumes "failing thr msg c" and "4 \<le> phase (init c)"
  shows "status_state c = Invalid \<and> status_error c = Some msg \<and> subscription c = None"
  using assms by (auto simp: failing_def phase_def split: init_task.splits)

lemma connectionBlocker_step: "connectionBlocker s \<Longrightarrow> connectionBlocker (step s e)"
  by (cases e) (simp_all add: getChannel_def handler_defs onConnect_def onDisconnect_def
      split: option.splits init_task.splits scope_slot.splits)

lemma connectionBlocker_run:
  assumes "connectionBlocker s \<or> TransportConnect \<in> set es"
  shows "connectionBlocker (run s es)"
  using assms unfolding run_def
proof (induction es arbitrary: s)
  case Nil
  then show ?case by simp
next
  case (Cons e es)
  have "connectionBlocker (step s e) \<or> TransportConnect \<in> set es"
    using Cons.prems by (auto simp: connectionBlocker_step onConnect_def)
  then show ?case using Cons.IH by simp
qed

lemma subscribe_error_effect:
  assumes "ch < length (heap s)" and "subscription (heap s ! ch) \<noteq> None"
    and "status_state (heap s ! ch) = Pending" and "chan_consistent (heap s ! ch)"
  shows "status_state (heap (step s (SubscribeError ch msg)) ! ch) = Invalid"
    and "status_error (heap (step s (SubscribeError ch msg)) ! ch) = Some msg"
    and "\<not> pending_init (init (heap (step s (SubscribeError ch msg)) ! ch))"
  using assms
  by (auto simp: handler_defs consistent_defs split: option.splits)


lemma run_Cons: "run s (e # es) = run (step s e) es"
  by (simp add: run_def)

lemma rejection_schedule:
  assumes ch: "ch < length (heap s)" and f: "failing (\<lambda>k. None) msg (heap s ! ch)"
  shows "ch < length (heap (run s (es1 @ SupportSettles ch # es2 @ CatchRuns ch # es3))) \<and>
     failing (\<lambda>k. None) msg (heap (run s (es1 @ SupportSettles ch # es2 @ CatchRuns ch # es3)) ! ch) \<and>
     4 \<le> phase (init (heap (run s (es1 @ SupportSettles ch # es2 @ CatchRuns ch # es3)) ! ch))"
proof -
  have t: "\<forall>k m. (\<lambda>k. None :: string option) k = Some m \<longrightarrow> subscribe_throws x k = Some m" for x
    by simp
  define sa where "sa = run s es1"
  have a: "ch < length (heap sa)" "failing (\<lambda>k. None) msg (heap sa ! ch)"
    using failing_run [OF ch f t, of 0 es1] by (simp_all add: sa_def)
  define sb where "sb = step sa (SupportSettles ch)"
  have b: "ch < length (heap sb)" "failing (\<lambda>k. None) msg (heap sb ! ch)"
      "3 \<le> phase (init (heap sb ! ch))"
    using a length_heap_step [of sa "SupportSettles ch"] failing_step [OF a t, of "SupportSettles ch"]
      support_settles_rejects [OF a]
    by (simp_all add: sb_def)
  define sc where "sc = run sb es2"
  have c: "ch < length (heap sc)" "failing (\<lambda>k. None) msg (heap sc ! ch)"
      "3 \<le> phase (init (heap sc ! ch))"
    using failing_run [OF b(1,2) t b(3), of es2] by (simp_all add: sc_def)
  define sd where "sd = step sc (CatchRuns ch)"
  have d: "ch < length (heap sd)" "failing (\<lambda>k. None) msg (heap sd ! ch)"
      "4 \<le> phase (init (heap sd ! ch))"
    using c length_heap_step [of sc "CatchRuns ch"] failing_step [OF c(1,2) t, of "CatchRuns ch"]
      catch_runs_progress [OF c]
    by (simp_all add: sd_def)
  have "run s (es1 @ SupportSettles ch # es2 @ CatchRuns ch # es3) = run sd es3"
    by (simp add: run_append run_Cons sa_def sb_def sc_def sd_def)
  then show ?thesis
    using failing_run [OF d(1,2) t d(3), of es3] by simp
qed

lemma throw_schedule:
  assumes ch: "ch < length (heap s)" and f: "failing (subscribe_throws s) msg (heap s ! ch)"
    and opened: "connectionBlocker s \<or> TransportConnect \<in> set (es1 @ es2)"
  shows "ch < length (heap (run s
        (es1 @ SupportSettles ch # es2 @ BlockerSettles ch # es3 @ CatchRuns ch # es4))) \<and>
     failing (subscribe_throws s) msg (heap (run s
        (es1 @ SupportSettles ch # es2 @ BlockerSettles ch # es3 @ CatchRuns ch # es4)) ! ch) \<and>
     4 \<le> phase (init (heap (run s
        (es1 @ SupportSettles ch # es2 @ BlockerSettles ch # es3 @ CatchRuns ch # es4)) ! ch))"
proof -
  let ?thr = "subscribe_throws s"
  define sa where "sa = run s es1"
  have ta: "\<forall>k m. ?thr k = Some m \<longrightarrow> subscribe_throws s k = Some m" by simp
  have a: "ch < length (heap sa)" "failing ?thr msg (heap sa ! ch)"
    using failing_run [OF ch f ta, of 0 es1] by (simp_all add: sa_def)
  have t: "\<forall>k m. ?thr k = Some m \<longrightarrow> subscribe_throws (run s es) k = Some m" for es
    by (simp add: subscribe_throws_run)
  define sb where "sb = step sa (SupportSettles ch)"
  have thr_sa: "subscribe_throws sa = subscribe_throws s"
    unfolding sa_def by (simp only: subscribe_throws_run )
  have tb: "\<forall>k m. ?thr k = Some m \<longrightarrow> subscribe_throws sa k = Some m"
    by (simp only: thr_sa) simp
  have b: "ch < length (heap sb)" "failing ?thr msg (heap sb ! ch)"
      "2 \<le> phase (init (heap sb ! ch))"
    using a length_heap_step [of sa "SupportSettles ch"] failing_step [OF a tb, of "SupportSettles ch"]
      support_settles_progress [OF a tb]
    by (simp_all add: sb_def)
  define sc where "sc = run sb es2"
  have thr_sb: "subscribe_throws sb = subscribe_throws s"
    unfolding sb_def by (simp only: subscribe_throws_step thr_sa)
  have tc: "\<forall>k m. ?thr k = Some m \<longrightarrow> subscribe_throws sb k = Some m"
    by (simp only: thr_sb) simp
  have c: "ch < length (heap sc)" "failing ?thr msg (heap sc ! ch)"
      "2 \<le> phase (init (heap sc ! ch))"
    using failing_run [OF b(1,2) tc b(3), of es2] by (simp_all add: sc_def)
  have "sc = run s (es1 @ SupportSettles ch # es2)"
    by (simp add: run_append run_Cons sa_def sb_def sc_def)
  moreover have "connectionBlocker (run s (es1 @ SupportSettles ch # es2))"
    using opened by (intro connectionBlocker_run) auto
  ultimately have blocker: "connectionBlocker sc" by simp
  define sd where "sd = step sc (BlockerSettles ch)"
  have thr_sc: "subscribe_throws sc = subscribe_throws s"
    unfolding sc_def by (simp only: subscribe_throws_run thr_sb)
  have td: "\<forall>k m. ?thr k = Some m \<longrightarrow> subscribe_throws sc k = Some m"
    by (simp only: thr_sc) simp
  have d: "ch < length (heap sd)" "failing ?thr msg (heap sd ! ch)"
      "3 \<le> phase (init (heap sd ! ch))"
    using c length_heap_step [of sc "BlockerSettles ch"] failing_step [OF c(1,2) td, of "BlockerSettles ch"]
      blocker_settles_progress [OF c(1,2) td blocker c(3)]
    by (simp_all add: sd_def)
  define se where "se = run sd es3"
  have thr_sd: "subscribe_throws sd = subscribe_throws s"
    unfolding sd_def by (simp only: subscribe_throws_step thr_sc)
  have te: "\<forall>k m. ?thr k = Some m \<longrightarrow> subscribe_throws sd k = Some m"
    by (simp only: thr_sd) simp
  have e: "ch < length (heap se)" "failing ?thr msg (heap se ! ch)"
      "3 \<le> phase (init (heap se ! ch))"
    using failing_run [OF d(1,2) te d(3), of es3] by (simp_all add: se_def)
  define sf where "sf = step se (CatchRuns ch)"
  have thr_se: "subscribe_throws se = subscribe_throws s"
    unfolding se_def by (simp only: subscribe_throws_run thr_sd)
  have tf: "\<forall>k m. ?thr k = Some m \<longrightarrow> subscribe_throws se k = Some m"
    by (simp only: thr_se) simp
  have ff: "ch < length (heap sf)" "failing ?thr msg (heap sf ! ch)"
      "4 \<le> phase (init (heap sf ! ch))"
    using e length_heap_step [of se "CatchRuns ch"] failing_step [OF e(1,2) tf, of "CatchRuns ch"]
      catch_runs_progress [OF e]
    by (simp_all add: sf_def)
  have thr_sf: "subscribe_throws sf = subscribe_throws s"
    unfolding sf_def by (simp only: subscribe_throws_step thr_se)
  have tg: "\<forall>k m. ?thr k = Some m \<longrightarrow> subscribe_throws sf k = Some m"
    by (simp only: thr_sf) simp
  have "run s (es1 @ SupportSettles ch # es2 @ BlockerSettles ch # es3 @ CatchRuns ch # es4)
      = run sf es4"
    by (simp add: run_append run_Cons sa_def sb_def sc_def sd_def se_def sf_def)
  then show ?thesis
    using failing_run [OF ff(1,2) tg ff(3), of es4] by simp
qed

lemma error_reply_schedule:
  assumes ch: "ch < length (heap s)" and cons: "chan_consistent (heap s ! ch)"
    and sub: "subscription (heap (run s es1) ! ch) \<noteq> None"
    and pend: "status_state (heap (run s es1) ! ch) = Pending"
  shows "ch < length (heap (run s (es1 @ SubscribeError ch msg # es3))) \<and>
     status_state (heap (run s (es1 @ SubscribeError ch msg # es3)) ! ch) = Invalid \<and>
     status_error (heap (run s (es1 @ SubscribeError ch msg # es3)) ! ch) = Some msg"
proof -
  define sa where "sa = run s es1"
  have a: "ch < length (heap sa)" "chan_consistent (heap sa ! ch)"
    using consistent_run [OF ch cons, of es1] by (simp_all add: sa_def)
  define sb where "sb = step sa (SubscribeError ch msg)"
  have b: "ch < length (heap sb)" "status_state (heap sb ! ch) = Invalid"
      "status_error (heap sb ! ch) = Some msg" "\<not> pending_init (init (heap sb ! ch))"
    using a length_heap_step [of sa "SubscribeError ch msg"]
      subscribe_error_effect [OF a(1) sub [folded sa_def] pend [folded sa_def] a(2), of msg]
    by (simp_all add: sb_def)
  have "run s (es1 @ SubscribeError ch msg # es3) = run sb es3"
    by (simp add: run_append run_Cons sa_def sb_def)
  then show ?thesis
    using settled_run [OF b(1,2,4), of es3] b by simp
qed

text \<open>
  C2. A call of \<^verbatim>\<open>getChannel\<close> in a reachable state, for an address with a registered scope
  and a key that is not in the map, returns a channel that is \<^verbatim>\<open>Pending\<close> with nothing on
  its stream: nothing is thrown back through the return. Let the initialisation then fail,
  with any other events before, between and after its own steps:
  \<^item> the scope has no support for the namespace, its promise settles and the handler of
    \<^verbatim>\<open>.catch\<close> runs;
  \<^item> the support has no configuration for the path, likewise;
  \<^item> the call of the transport's \<^verbatim>\<open>subscribe\<close> throws, once the connection blocker is or
    becomes resolved, its \<^verbatim>\<open>await\<close> is resumed and the handler of \<^verbatim>\<open>.catch\<close> runs;
  \<^item> the transport answers the subscription of the channel, while it is pending, with
    an error.

  Then the channel is \<^verbatim>\<open>Invalid\<close>, its error is the message of the failure, the status
  events with an error on its stream are that one event, and no key of the map of open
  channels points to the channel. Without support, or without a configuration for the path,
  the channel is not \<^verbatim>\<open>Connected\<close> after any sequence of events.
\<close>

theorem failed_initialisation_invalidates_channel:
  assumes reach: "srv = run (CentrifugeSrv_new tbl c0 thr) es0"
    and known: "scopes srv (scope a) = Some sc" and fresh: "open_chans srv (channel_key a) = None"
    and g: "getChannel srv a = (ch, s1)"
    and cause:
      "(sc (namespace a) = None \<and> msg = namespace a @ '' does not support streaming'' \<and>
          es = es1 @ SupportSettles ch # es2 @ CatchRuns ch # es3) \<or>
       (\<exists>supp. sc (namespace a) = Some supp \<and> supp (path a) = None \<and>
          msg = ''unknown path: '' @ path a \<and>
          es = es1 @ SupportSettles ch # es2 @ CatchRuns ch # es3) \<or>
       (\<exists>supp cfg. sc (namespace a) = Some supp \<and> supp (path a) = Some cfg \<and>
          subscribe_throws srv (channel_key a) = Some msg \<and>
          (connectionBlocker srv \<or> TransportConnect \<in> set (es1 @ es2)) \<and>
          es = es1 @ SupportSettles ch # es2 @ BlockerSettles ch # es3 @ CatchRuns ch # es4) \<or>
       (subscription (heap (run s1 es1) ! ch) \<noteq> None \<and>
          status_state (heap (run s1 es1) ! ch) = Pending \<and>
          es = es1 @ SubscribeError ch msg # es3)"
  shows "status_state (heap s1 ! ch) = Pending \<and> stream (heap s1 ! ch) = [] \<and>
     status_state (heap (run s1 es) ! ch) = Invalid \<and>
     status_error (heap (run s1 es) ! ch) = Some msg \<and>
     error_events (heap (run s1 es) ! ch) = [Status Invalid (Some msg) None] \<and>
     (\<forall>k. open_chans (run s1 es) k \<noteq> Some ch) \<and>
     (sc (namespace a) = None \<or> (\<exists>supp. sc (namespace a) = Some supp \<and> supp (path a) = None) \<longrightarrow>
        (\<forall>es'. status_state (heap (run s1 es') ! ch) \<noteq> Connected))"
proof -
  note new = getChannel_new_state [OF known fresh g]
  define c where "c = (CentrifugeLiveChannel_new (channel_key a) a)
              \<lparr>shutdownCallback := Some (channel_key a), init := AwaitSupport (sc (namespace a))\<rparr>"
  have len1: "ch < length (heap s1)" and c1: "heap s1 ! ch = c"
    and thr1: "subscribe_throws s1 = subscribe_throws srv"
    and blocker1: "connectionBlocker s1 = connectionBlocker srv"
    by (simp_all add: new c_def)
  have cf: "chan_addr c = a" "chan_id c = channel_key a" "status_state c = Pending" "stream c = []"
    "subscription c = None" "init c = AwaitSupport (sc (namespace a))" "status_error c = None"
    by (simp_all add: c_def CentrifugeLiveChannel_new_def)
  have pending: "status_state (heap s1 ! ch) = Pending \<and> stream (heap s1 ! ch) = []"
    by (simp add: c1 cf)
  have cons1: "chan_consistent (heap s1 ! ch)"
    by (simp add: c1 cf chan_consistent_def pending_init_def error_events_def)
  have none: "\<forall>k m. (\<lambda>k. None :: string option) k = Some m \<longrightarrow> subscribe_throws s1 k = Some m"
    by simp
  define opened where "opened \<longleftrightarrow> connectionBlocker srv \<or> TransportConnect \<in> set (es1 @ es2)"
  consider
      (unsupported) "sc (namespace a) = None" "msg = namespace a @ '' does not support streaming''"
        "es = es1 @ SupportSettles ch # es2 @ CatchRuns ch # es3"
    | (unknown_path) supp where "sc (namespace a) = Some supp" "supp (path a) = None"
        "msg = ''unknown path: '' @ path a"
        "es = es1 @ SupportSettles ch # es2 @ CatchRuns ch # es3"
    | (throws) supp cfg where "sc (namespace a) = Some supp" "supp (path a) = Some cfg"
        "subscribe_throws srv (channel_key a) = Some msg"
        "opened"
        "es = es1 @ SupportSettles ch # es2 @ BlockerSettles ch # es3 @ CatchRuns ch # es4"
    | (error_reply) "subscription (heap (run s1 es1) ! ch) \<noteq> None"
        "status_state (heap (run s1 es1) ! ch) = Pending"
        "es = es1 @ SubscribeError ch msg # es3"
    using cause [folded opened_def] by (elim disjE exE conjE) blast+
  then have final: "status_state (heap (run s1 es) ! ch) = Invalid \<and>
      status_error (heap (run s1 es) ! ch) = Some msg"
  proof cases
    case unsupported
    then have "failing (\<lambda>k. None) msg (heap s1 ! ch)"
      by (simp add: c1 cf failing_def)
    from rejection_schedule [OF len1 this, of es1 es2 es3] show ?thesis
      using failing_done [of "\<lambda>k. None" msg "heap (run s1 es) ! ch"]
      by (simp add: unsupported(3))
  next
    case unknown_path
    then have "failing (\<lambda>k. None) msg (heap s1 ! ch)"
      by (simp add: c1 cf failing_def)
    from rejection_schedule [OF len1 this, of es1 es2 es3] show ?thesis
      using failing_done [of "\<lambda>k. None" msg "heap (run s1 es) ! ch"]
      by (simp add: unknown_path(4))
  next
    case throws
    have f: "failing (subscribe_throws s1) msg (heap s1 ! ch)"
      using throws(1-3) by (simp add: c1 cf failing_def thr1)
    have b: "connectionBlocker s1 \<or> TransportConnect \<in> set (es1 @ es2)"
      using throws(4) by (simp only: blocker1 opened_def)
    from throw_schedule [OF len1 f b, of es3 es4] show ?thesis
      using failing_done [of "subscribe_throws s1" msg "heap (run s1 es) ! ch"]
      by (simp add: throws(5))
  next
    case error_reply
    from error_reply_schedule [OF len1 cons1 error_reply(1,2), of msg es3] show ?thesis
      by (simp add: error_reply(3))
  qed
  have "chan_consistent (heap (run s1 es) ! ch)"
    using consistent_run [OF len1 cons1, of es] by simp
  with final have events: "error_events (heap (run s1 es) ! ch) = [Status Invalid (Some msg) None]"
    by (simp add: chan_consistent_def)
  have "step srv (GetChannel a) = s1" using g by simp
  then have "run s1 es = run (CentrifugeSrv_new tbl c0 thr) (es0 @ GetChannel a # es)"
    by (simp add: reach run_append run_Cons)
  then have ok: "registry_ok (run s1 es)"
    using reachable_ok(1) [of tbl c0 thr "es0 @ GetChannel a # es"] by simp
  have gone: "open_chans (run s1 es) k \<noteq> Some ch" for k
    using registry_okD(4) [OF ok, of k ch] final by (auto simp: is_terminal_def)
  have never: "status_state (heap (run s1 es') ! ch) \<noteq> Connected"
    if "sc (namespace a) = None \<or> (\<exists>supp. sc (namespace a) = Some supp \<and> supp (path a) = None)" for es'
  proof -
    have "\<exists>m. failing (\<lambda>k. None) m (heap s1 ! ch)"
      using that by (auto simp: c1 cf failing_def)
    then obtain m where "failing (\<lambda>k. None) m (heap s1 ! ch)" by blast
    from failing_run [OF len1 this none, of 0 es'] show ?thesis
      by (simp add: failing_def)
  qed
  show ?thesis using pending final events gone never by blast
qed


theorem failed_initialisation_invalidates_channel_witness:
  "scopes example_srv (scope addr_home) = Some example_scope \<and>
   open_chans example_srv (channel_key addr_home) = None \<and>
   fst (getChannel example_srv addr_home) = 0 \<and>
   subscription (heap (run (snd (getChannel example_srv addr_home))
       [SupportSettles 0, TransportConnect, BlockerSettles 0]) ! 0) = Some ''grafana/dashboard/home'' \<and>
   status_state (heap (run (snd (getChannel example_srv addr_home))
       [SupportSettles 0, TransportConnect, BlockerSettles 0]) ! 0) = Pending \<and>
   status_state (heap (run (snd (getChannel example_srv addr_home))
       [SupportSettles 0, TransportConnect, BlockerSettles 0, SubscribeError 0 ''denied'',
        TransportDisconnect]) ! 0) = Invalid \<and>
   status_error (heap (run (snd (getChannel example_srv addr_home))
       [SupportSettles 0, TransportConnect, BlockerSettles 0, SubscribeError 0 ''denied'',
        TransportDisconnect]) ! 0) = Some ''denied'' \<and>
   error_events (heap (run (snd (getChannel example_srv addr_home))
       [SupportSettles 0, TransportConnect, BlockerSettles 0, SubscribeError 0 ''denied'',
        TransportDisconnect]) ! 0) = [Status Invalid (Some ''denied'') None] \<and>
   open_chans (run (snd (getChannel example_srv addr_home))
       [SupportSettles 0, TransportConnect, BlockerSettles 0, SubscribeError 0 ''denied'',
        TransportDisconnect]) (channel_key addr_home) \<noteq> Some 0 \<and>
   scopes example_srv (scope addr_abc) = Some example_scope \<and>
   open_chans example_srv (channel_key addr_abc) = None \<and>
   example_scope (namespace addr_abc) = Some example_support \<and>
   example_support (path addr_abc) = None \<and>
   fst (getChannel example_srv addr_abc) = 0 \<and>
   status_state (heap (run (snd (getChannel example_srv addr_abc))
       [TransportConnect, SupportSettles 0, TransportDisconnect, CatchRuns 0]) ! 0) = Invalid \<and>
   status_error (heap (run (snd (getChannel example_srv addr_abc))
       [TransportConnect, SupportSettles 0, TransportDisconnect, CatchRuns 0]) ! 0)
     = Some ''unknown path: abc'' \<and>
   error_events (heap (run (snd (getChannel example_srv addr_abc))
       [TransportConnect, SupportSettles 0, TransportDisconnect, CatchRuns 0]) ! 0)
     = [Status Invalid (Some ''unknown path: abc'') None] \<and>
   status_state (heap (run (snd (getChannel example_srv addr_abc))
       [TransportConnect, SupportSettles 0, BlockerSettles 0, SubscribeAck 0]) ! 0) \<noteq> Connected"
proof -
  let ?home = "snd (getChannel example_srv addr_home)"
  let ?abc = "snd (getChannel example_srv addr_abc)"
  have h0: "example_srv = run (CentrifugeSrv_new [''grafana'' \<mapsto> example_scope] False (\<lambda>_. None)) []"
    by (simp add: example_srv_def run_def)
  have h1: "scopes example_srv (scope addr_home) = Some example_scope"
    "scopes example_srv (scope addr_abc) = Some example_scope"
    by (simp_all add: example_srv_def CentrifugeSrv_new_def addr_home_def addr_abc_def)
  have h2: "open_chans example_srv (channel_key addr_home) = None"
    "open_chans example_srv (channel_key addr_abc) = None"
    by (simp_all add: example_srv_def CentrifugeSrv_new_def)
  have h3: "example_scope (namespace addr_abc) = Some example_support"
    "example_support (path addr_abc) = None" "path addr_abc = ''abc''"
    by (simp_all add: example_scope_def example_support_def addr_abc_def)
  have h4: "fst (getChannel example_srv addr_home) = 0" "fst (getChannel example_srv addr_abc) = 0"
    by (simp_all add: getChannel_result h2) (simp_all add: example_srv_def CentrifugeSrv_new_def)
  have g_home: "getChannel example_srv addr_home = (0, ?home)"
    using h4(1) by (simp add: prod_eq_iff)
  have g_abc: "getChannel example_srv addr_abc = (0, ?abc)"
    using h4(2) by (simp add: prod_eq_iff)
  have h5: "subscription (heap (run ?home [SupportSettles 0, TransportConnect, BlockerSettles 0]) ! 0)
        = Some ''grafana/dashboard/home''"
    "status_state (heap (run ?home [SupportSettles 0, TransportConnect, BlockerSettles 0]) ! 0) = Pending"
    by (simp_all add: example_defs handler_defs onConnect_def)
  have reply: "(example_scope (namespace addr_home) = None \<and>
          ''denied'' = namespace addr_home @ '' does not support streaming'' \<and>
          [SupportSettles 0, TransportConnect, BlockerSettles 0, SubscribeError 0 ''denied'',
           TransportDisconnect]
            = [SupportSettles 0, TransportConnect, BlockerSettles 0] @ SupportSettles 0 # [] @ CatchRuns 0 # [TransportDisconnect]) \<or>
       (\<exists>supp. example_scope (namespace addr_home) = Some supp \<and> supp (path addr_home) = None \<and>
          ''denied'' = ''unknown path: '' @ path addr_home \<and>
          [SupportSettles 0, TransportConnect, BlockerSettles 0, SubscribeError 0 ''denied'',
           TransportDisconnect]
            = [SupportSettles 0, TransportConnect, BlockerSettles 0] @ SupportSettles 0 # [] @ CatchRuns 0 # [TransportDisconnect]) \<or>
       (\<exists>supp cfg. example_scope (namespace addr_home) = Some supp \<and> supp (path addr_home) = Some cfg \<and>
          subscribe_throws example_srv (channel_key addr_home) = Some ''denied'' \<and>
          (connectionBlocker example_srv \<or>
             TransportConnect \<in> set ([SupportSettles 0, TransportConnect, BlockerSettles 0] @ [])) \<and>
          [SupportSettles 0, TransportConnect, BlockerSettles 0, SubscribeError 0 ''denied'',
           TransportDisconnect]
            = [SupportSettles 0, TransportConnect, BlockerSettles 0] @ SupportSettles 0 # [] @
              BlockerSettles 0 # [TransportDisconnect] @ CatchRuns 0 # []) \<or>
       (subscription (heap (run ?home [SupportSettles 0, TransportConnect, BlockerSettles 0]) ! 0) \<noteq> None \<and>
          status_state (heap (run ?home [SupportSettles 0, TransportConnect, BlockerSettles 0]) ! 0) = Pending \<and>
          [SupportSettles 0, TransportConnect, BlockerSettles 0, SubscribeError 0 ''denied'',
           TransportDisconnect]
            = [SupportSettles 0, TransportConnect, BlockerSettles 0] @ SubscribeError 0 ''denied'' # [TransportDisconnect])"
    using h5 by simp
  have unknown: "(example_scope (namespace addr_abc) = None \<and>
          ''unknown path: abc'' = namespace addr_abc @ '' does not support streaming'' \<and>
          [TransportConnect, SupportSettles 0, TransportDisconnect, CatchRuns 0]
            = [TransportConnect] @ SupportSettles 0 # [TransportDisconnect] @ CatchRuns 0 # []) \<or>
       (\<exists>supp. example_scope (namespace addr_abc) = Some supp \<and> supp (path addr_abc) = None \<and>
          ''unknown path: abc'' = ''unknown path: '' @ path addr_abc \<and>
          [TransportConnect, SupportSettles 0, TransportDisconnect, CatchRuns 0]
            = [TransportConnect] @ SupportSettles 0 # [TransportDisconnect] @ CatchRuns 0 # []) \<or>
       (\<exists>supp cfg. example_scope (namespace addr_abc) = Some supp \<and> supp (path addr_abc) = Some cfg \<and>
          subscribe_throws example_srv (channel_key addr_abc) = Some ''unknown path: abc'' \<and>
          (connectionBlocker example_srv \<or> TransportConnect \<in> set ([TransportConnect] @ [TransportDisconnect])) \<and>
          [TransportConnect, SupportSettles 0, TransportDisconnect, CatchRuns 0]
            = [TransportConnect] @ SupportSettles 0 # [TransportDisconnect] @ BlockerSettles 0 # [] @ CatchRuns 0 # []) \<or>
       (subscription (heap (run ?abc [TransportConnect]) ! 0) \<noteq> None \<and>
          status_state (heap (run ?abc [TransportConnect]) ! 0) = Pending \<and>
          [TransportConnect, SupportSettles 0, TransportDisconnect, CatchRuns 0]
            = [TransportConnect] @ SubscribeError 0 ''unknown path: abc'' # [])"
    using h3 by simp
  note home = failed_initialisation_invalidates_channel [OF h0 h1(1) h2(1) g_home reply]
  note abc = failed_initialisation_invalidates_channel [OF h0 h1(2) h2(2) g_abc unknown]
  have never: "status_state (heap (run ?abc [TransportConnect, SupportSettles 0, BlockerSettles 0,
       SubscribeAck 0]) ! 0) \<noteq> Connected"
    using abc h3 by blast
  show ?thesis using home abc never h1 h2 h3 h4 h5 by simp
qed

section \<open>Subscribing waits for the connection\<close>

lemma never_connected_new: "never_connected (CentrifugeSrv_new tbl False thr)"
  by (simp add: never_connected_def CentrifugeSrv_new_def)

lemma never_connected_getChannel:
  assumes "never_connected s"
  shows "never_connected (snd (getChannel s a))"
  using assms
  by (auto simp: never_connected_def getChannel_def Let_def nth_append less_Suc_eq
      getErrorChannel_def CentrifugeLiveChannel_new_def split: option.splits scope_slot.splits)

lemma unconnected_handlers_globals:
  assumes "\<not> isConnected s" and "\<not> connectionBlocker s"
  shows "isConnected (initChannel_resume ch s) = isConnected s \<and>
      connectionBlocker (initChannel_resume ch s) = connectionBlocker s \<and>
      subscribed (initChannel_resume ch s) = subscribed s"
    "isConnected (initChannel_unblocked ch s) = isConnected s \<and>
      connectionBlocker (initChannel_unblocked ch s) = connectionBlocker s \<and>
      subscribed (initChannel_unblocked ch s) = subscribed s"
    "isConnected (catch_handler ch s) = isConnected s \<and>
      connectionBlocker (catch_handler ch s) = connectionBlocker s \<and>
      subscribed (catch_handler ch s) = subscribed s"
    "isConnected (on_subscribe ch s) = isConnected s \<and>
      connectionBlocker (on_subscribe ch s) = connectionBlocker s \<and>
      subscribed (on_subscribe ch s) = subscribed s"
    "isConnected (on_unsubscribe ch s) = isConnected s \<and>
      connectionBlocker (on_unsubscribe ch s) = connectionBlocker s \<and>
      subscribed (on_unsubscribe ch s) = subscribed s"
    "isConnected (disconnect ch s) = isConnected s \<and>
      connectionBlocker (disconnect ch s) = connectionBlocker s \<and>
      subscribed (disconnect ch s) = subscribed s"
    "isConnected (on_subscribe_error err ch s) = isConnected s \<and>
      connectionBlocker (on_subscribe_error err ch s) = connectionBlocker s \<and>
      subscribed (on_subscribe_error err ch s) = subscribed s"
  using assms by (simp_all add: handler_defs split: option.splits init_task.splits)

lemma unconnected_handlers_channel:
  assumes "\<not> isConnected s" and "\<not> connectionBlocker s" and "ch < length (heap s)"
    and "subscription (heap s ! ch) = None \<and>
        status_state (heap s ! ch) \<noteq> Connected \<and> status_state (heap s ! ch) \<noteq> Disconnected"
  shows "subscription (heap (initChannel_resume ch s) ! ch) = None \<and>
        status_state (heap (initChannel_resume ch s) ! ch) \<noteq> Connected \<and>
        status_state (heap (initChannel_resume ch s) ! ch) \<noteq> Disconnected"
    "subscription (heap (initChannel_unblocked ch s) ! ch) = None \<and>
        status_state (heap (initChannel_unblocked ch s) ! ch) \<noteq> Connected \<and>
        status_state (heap (initChannel_unblocked ch s) ! ch) \<noteq> Disconnected"
    "subscription (heap (catch_handler ch s) ! ch) = None \<and>
        status_state (heap (catch_handler ch s) ! ch) \<noteq> Connected \<and>
        status_state (heap (catch_handler ch s) ! ch) \<noteq> Disconnected"
    "subscription (heap (on_subscribe ch s) ! ch) = None \<and>
        status_state (heap (on_subscribe ch s) ! ch) \<noteq> Connected \<and>
        status_state (heap (on_subscribe ch s) ! ch) \<noteq> Disconnected"
    "subscription (heap (on_unsubscribe ch s) ! ch) = None \<and>
        status_state (heap (on_unsubscribe ch s) ! ch) \<noteq> Connected \<and>
        status_state (heap (on_unsubscribe ch s) ! ch) \<noteq> Disconnected"
    "subscription (heap (disconnect ch s) ! ch) = None \<and>
        status_state (heap (disconnect ch s) ! ch) \<noteq> Connected \<and>
        status_state (heap (disconnect ch s) ! ch) \<noteq> Disconnected"
    "subscription (heap (on_subscribe_error err ch s) ! ch) = None \<and>
        status_state (heap (on_subscribe_error err ch s) ! ch) \<noteq> Connected \<and>
        status_state (heap (on_subscribe_error err ch s) ! ch) \<noteq> Disconnected"
  using assms by (auto simp: handler_defs is_terminal_def split: option.splits init_task.splits)

lemma never_connected_step:
  assumes g: "never_connected s" and e: "e \<noteq> TransportConnect"
  shows "never_connected (step s e)"
proof (cases "target e")
  case None
  then show ?thesis using g e
    by (cases e) (simp_all add: target_def never_connected_getChannel,
        simp add: never_connected_def onDisconnect_def)
next
  case (Some ch)
  have nc: "\<not> isConnected s" "\<not> connectionBlocker s" using g by (simp_all add: never_connected_def)
  have len: "length (heap (step s e)) = length (heap s)"
    using Some by (cases e) (simp_all add: target_def length_heap_handlers)
  have globals: "\<not> isConnected (step s e) \<and> \<not> connectionBlocker (step s e) \<and> subscribed (step s e) = []"
    using Some g unconnected_handlers_globals [OF nc, where ch = ch]
    by (cases e) (simp_all add: target_def never_connected_def)
  have chans: "subscription (heap (step s e) ! r) = None \<and>
        status_state (heap (step s e) ! r) \<noteq> Connected \<and>
        status_state (heap (step s e) ! r) \<noteq> Disconnected" if r: "r < length (heap s)" for r
  proof (cases "r = ch")
    case False
    then have "heap (step s e) ! r = heap s ! r" using r Some by (simp add: nth_heap_step)
    then show ?thesis using g r by (simp add: never_connected_def)
  next
    case True
    have old: "subscription (heap s ! ch) = None \<and>
        status_state (heap s ! ch) \<noteq> Connected \<and> status_state (heap s ! ch) \<noteq> Disconnected"
      using g r True by (simp add: never_connected_def)
    have c: "ch < length (heap s)" using r True by simp
    show ?thesis
      using Some True unconnected_handlers_channel [OF nc c old]
      by (cases e) (simp_all add: target_def c)
  qed
  show ?thesis
    unfolding never_connected_def using globals chans len by simp
qed

lemma never_connected_run:
  assumes "never_connected s" and "TransportConnect \<notin> set es"
  shows "never_connected (run s es)"
  using assms unfolding run_def
  by (induction es arbitrary: s) (auto simp: never_connected_step)

lemma awaiting_handlers:
  assumes "\<not> isConnected s" and "\<not> connectionBlocker s" and "ch < length (heap s)"
    and "awaiting a supp (heap s ! ch)" and "supp (path a) = Some cfg"
  shows "awaiting a supp (heap (initChannel_resume ch s) ! ch)"
    "awaiting a supp (heap (initChannel_unblocked ch s) ! ch)"
    "awaiting a supp (heap (catch_handler ch s) ! ch)"
    "awaiting a supp (heap (on_subscribe ch s) ! ch)"
    "awaiting a supp (heap (on_unsubscribe ch s) ! ch)"
    "awaiting a supp (heap (on_subscribe_error err ch s) ! ch)"
  using assms by (auto simp: handler_defs awaiting_def split: option.splits init_task.splits)

lemma awaiting_step:
  assumes g: "never_connected s" and ch: "ch < length (heap s)" and w: "awaiting a supp (heap s ! ch)"
    and cfg: "supp (path a) = Some cfg"
    and e: "e \<noteq> TransportConnect" "e \<noteq> ChannelDisconnect ch"
  shows "awaiting a supp (heap (step s e) ! ch)"
proof (cases "target e = Some ch")
  case False
  then show ?thesis using ch w by (simp add: nth_heap_step)
next
  case True
  have nc: "\<not> isConnected s" "\<not> connectionBlocker s" using g by (simp_all add: never_connected_def)
  show ?thesis
    using True e awaiting_handlers [OF nc ch w cfg]
    by (cases e) (simp_all add: target_def ch)
qed

lemma awaiting_run:
  assumes "never_connected s" and "ch < length (heap s)" and "awaiting a supp (heap s ! ch)"
    and "supp (path a) = Some cfg"
    and "TransportConnect \<notin> set es" and "ChannelDisconnect ch \<notin> set es"
  shows "never_connected (run s es) \<and> ch < length (heap (run s es)) \<and> awaiting a supp (heap (run s es) ! ch)"
  using assms unfolding run_def
proof (induction es arbitrary: s)
  case Nil
  then show ?case by simp
next
  case (Cons e es)
  have e: "e \<noteq> TransportConnect" "e \<noteq> ChannelDisconnect ch" using Cons.prems(5,6) by auto
  have 1: "never_connected (step s e)" using Cons.prems(1) e(1) by (rule never_connected_step)
  have 2: "ch < length (heap (step s e))" using Cons.prems(2) length_heap_step [of s e] by simp
  have 3: "awaiting a supp (heap (step s e) ! ch)"
    using Cons.prems(1,2,3,4) e by (rule awaiting_step)
  show ?case
    using Cons.IH [OF 1 2 3 Cons.prems(4)] Cons.prems(5,6) by simp
qed

lemma connect_then_subscribe:
  assumes g: "never_connected s" and ch: "ch < length (heap s)" and w: "awaiting a supp (heap s ! ch)"
    and cfg: "supp (path a) = Some cfg" and thr: "subscribe_throws s (channel_key a) = None"
  shows "status_state (heap (run s [SupportSettles ch, TransportConnect, BlockerSettles ch]) ! ch) = Pending"
    and "subscription (heap (run s [SupportSettles ch, TransportConnect, BlockerSettles ch]) ! ch)
      = Some (channel_key a)"
    and "subscribed (run s [SupportSettles ch, TransportConnect, BlockerSettles ch]) = [channel_key a]"
    and "status_state (heap (run s [SupportSettles ch, TransportConnect, BlockerSettles ch, SubscribeAck ch]) ! ch)
      = Connected"
proof -
  have nc: "\<not> isConnected s" "subscribed s = []" using g by (simp_all add: never_connected_def)
  have wf: "chan_id (heap s ! ch) = channel_key a" "chan_addr (heap s ! ch) = a"
    "status_state (heap s ! ch) = Pending" "subscription (heap s ! ch) = None"
    using w by (simp_all add: awaiting_def)
  define sa where "sa = initChannel_resume ch s"
  have sa: "ch < length (heap sa) \<and> chan_id (heap sa ! ch) = channel_key a \<and>
      status_state (heap sa ! ch) = Pending \<and> init (heap sa ! ch) = AwaitBlocker \<and>
      subscribed sa = [] \<and> subscribe_throws sa = subscribe_throws s"
  proof (cases "init (heap s ! ch) = AwaitBlocker")
    case True
    then have "sa = s" unfolding sa_def by (simp add: resume_other)
    then show ?thesis using ch wf nc True by simp
  next
    case False
    then have i: "init (heap s ! ch) = AwaitSupport (Some supp)" using w by (simp add: awaiting_def)
    have p: "supp (path (chan_addr (heap s ! ch))) = Some cfg" using cfg wf by simp
    show ?thesis
      unfolding sa_def resume_effect(3) [OF i p nc(1)]
      using ch wf nc by (simp add: upd_chan_fields initalize_def)
  qed
  define sb where "sb = onConnect sa"
  have sb: "ch < length (heap sb)" "chan_id (heap sb ! ch) = channel_key a"
      "status_state (heap sb ! ch) = Pending" "init (heap sb ! ch) = AwaitBlocker"
      "subscribed sb = []" "subscribe_throws sb = subscribe_throws s" "connectionBlocker sb"
    using sa by (simp_all add: sb_def onConnect_def)
  define sc where "sc = initChannel_unblocked ch sb"
  have t: "subscribe_throws sb (chan_id (heap sb ! ch)) = None" using sb thr by simp
  have "sc = upd_chan ch (\<lambda>c. c\<lparr>subscription := Some (chan_id c), init := InitResolved\<rparr>)
            (sb\<lparr>subscribed := subscribed sb @ [chan_id (heap sb ! ch)]\<rparr>)"
    unfolding sc_def using sb(4,7) by (simp add: initChannel_unblocked_def subscribe_effect(2) [OF t])
  then have sc: "ch < length (heap sc)" "status_state (heap sc ! ch) = Pending"
      "subscription (heap sc ! ch) = Some (channel_key a)" "subscribed sc = [channel_key a]"
    using sb by (simp_all add: upd_chan_fields)
  have r3: "run s [SupportSettles ch, TransportConnect, BlockerSettles ch] = sc"
    using ch sb(1) by (simp add: run_def sc_def sb_def sa_def)
  have r4: "run s [SupportSettles ch, TransportConnect, BlockerSettles ch, SubscribeAck ch]
      = on_subscribe ch sc"
    using ch sb(1) sc(1) by (simp add: run_def sc_def sb_def sa_def)
  show "status_state (heap (run s [SupportSettles ch, TransportConnect, BlockerSettles ch]) ! ch) = Pending"
    and "subscription (heap (run s [SupportSettles ch, TransportConnect, BlockerSettles ch]) ! ch)
      = Some (channel_key a)"
    and "subscribed (run s [SupportSettles ch, TransportConnect, BlockerSettles ch]) = [channel_key a]"
    using sc by (simp_all add: r3)
  show "status_state (heap (run s [SupportSettles ch, TransportConnect, BlockerSettles ch, SubscribeAck ch]) ! ch)
      = Connected"
    using sc by (simp add: r4 on_subscribe_def Let_def upd_chan_fields sendStatus_def)
qed

text \<open>
  C7. Let the transport be unconnected at construction and let no \<^verbatim>\<open>connect\<close> have happened
  when \<^verbatim>\<open>getChannel\<close> makes a channel for an address whose support and configuration exist
  and for which \<^verbatim>\<open>subscribe\<close> does not throw. The channel is returned pending. As long as
  no \<^verbatim>\<open>connect\<close> happens (and the channel is not shut down), whatever else happens, it
  stays \<^verbatim>\<open>Pending\<close>, it has no subscription, and \<^verbatim>\<open>subscribe\<close> has not been called on the
  transport at all. Once the transport connects, the continuation behind the blocker calls
  \<^verbatim>\<open>subscribe\<close> for the channel's id, and the acknowledgement makes the channel \<^verbatim>\<open>Connected\<close>.
\<close>

theorem subscribe_waits_for_connection:
  assumes es: "TransportConnect \<notin> set es" and s: "s = run (CentrifugeSrv_new tbl False thr) es"
    and known: "tbl (scope a) = Some sc" and supp: "sc (namespace a) = Some supp"
    and cfg: "supp (path a) = Some cfg" and thr: "thr (channel_key a) = None"
    and fresh: "open_chans s (channel_key a) = None"
    and g: "getChannel s a = (ch, s1)"
    and es': "TransportConnect \<notin> set es'" "ChannelDisconnect ch \<notin> set es'"
    and s2: "s2 = run s1 es'"
  shows "status_state (heap s1 ! ch) = Pending \<and>
     status_state (heap s2 ! ch) = Pending \<and> subscription (heap s2 ! ch) = None \<and>
     subscribed s2 = [] \<and>
     status_state (heap (run s2 [SupportSettles ch, TransportConnect, BlockerSettles ch]) ! ch) = Pending \<and>
     subscription (heap (run s2 [SupportSettles ch, TransportConnect, BlockerSettles ch]) ! ch)
       = Some (channel_key a) \<and>
     subscribed (run s2 [SupportSettles ch, TransportConnect, BlockerSettles ch]) = [channel_key a] \<and>
     status_state (heap (run s2 [SupportSettles ch, TransportConnect, BlockerSettles ch, SubscribeAck ch]) ! ch)
       = Connected"
proof -
  have gs: "never_connected s"
    unfolding s using never_connected_new es by (rule never_connected_run)
  have sc: "scopes s (scope a) = Some sc"
    using known by (simp add: s scopes_run CentrifugeSrv_new_def)
  note new = getChannel_new_state [OF sc fresh g]
  have s1: "s1 = step s (GetChannel a)" using g by simp
  have g1: "never_connected s1"
    unfolding s1 using gs by (rule never_connected_step) simp
  have len1: "ch < length (heap s1)" by (simp add: new)
  have w1: "awaiting a supp (heap s1 ! ch)"
    by (simp add: new awaiting_def CentrifugeLiveChannel_new_def supp)
  from awaiting_run [OF g1 len1 w1 cfg es']
  have i2: "never_connected s2" "ch < length (heap s2)" "awaiting a supp (heap s2 ! ch)"
    by (simp_all add: s2)
  have "subscribe_throws s1 = subscribe_throws s" by (simp add: new)
  then have t2: "subscribe_throws s2 (channel_key a) = None"
    using thr by (simp add: s2 s subscribe_throws_run CentrifugeSrv_new_def)
  note fin = connect_then_subscribe [OF i2 cfg t2]
  have "status_state (heap s1 ! ch) = Pending" using w1 by (simp add: awaiting_def)
  moreover have "status_state (heap s2 ! ch) = Pending \<and> subscription (heap s2 ! ch) = None"
    using i2(3) by (simp add: awaiting_def)
  moreover have "subscribed s2 = []" using i2(1) by (simp add: never_connected_def)
  ultimately show ?thesis using fin by simp
qed

theorem subscribe_waits_for_connection_witness:
  "TransportConnect \<notin> set [GetChannel addr_abc, TransportDisconnect] \<and>
   open_chans (run example_srv [GetChannel addr_abc, TransportDisconnect]) (channel_key addr_home) = None \<and>
   fst (getChannel (run example_srv [GetChannel addr_abc, TransportDisconnect]) addr_home) = 1 \<and>
   status_state (heap (run (snd (getChannel (run example_srv [GetChannel addr_abc, TransportDisconnect]) addr_home))
       [SupportSettles 0, SupportSettles 1]) ! 1) = Pending \<and>
   subscribed (run (snd (getChannel (run example_srv [GetChannel addr_abc, TransportDisconnect]) addr_home))
       [SupportSettles 0, SupportSettles 1]) = [] \<and>
   status_state (heap (run (run (snd (getChannel (run example_srv [GetChannel addr_abc, TransportDisconnect]) addr_home))
       [SupportSettles 0, SupportSettles 1])
       [SupportSettles 1, TransportConnect, BlockerSettles 1, SubscribeAck 1]) ! 1) = Connected"
proof -
  let ?s = "run example_srv [GetChannel addr_abc, TransportDisconnect]"
  have h1: "TransportConnect \<notin> set [GetChannel addr_abc, TransportDisconnect]" by simp
  have h2: "?s = run (CentrifugeSrv_new [''grafana'' \<mapsto> example_scope] False (\<lambda>_. None))
      [GetChannel addr_abc, TransportDisconnect]"
    by (simp add: example_srv_def)
  have h3: "[''grafana'' \<mapsto> example_scope] (scope addr_home) = Some example_scope"
    "example_scope (namespace addr_home) = Some example_support"
    "example_support (path addr_home) = Some \<lparr> hasPresence = False, canPublish = False \<rparr>"
    "(\<lambda>_. None) (channel_key addr_home) = (None :: string option)"
    by (simp_all add: addr_home_def example_scope_def example_support_def)
  have h4: "open_chans ?s (channel_key addr_home) = None"
    by (simp add: example_defs onDisconnect_def Let_def)
  have h5: "fst (getChannel ?s addr_home) = 1"
    by (simp add: getChannel_result h4) (simp add: example_defs onDisconnect_def Let_def)
  have g: "getChannel ?s addr_home = (1, snd (getChannel ?s addr_home))"
    using h5 by (simp add: prod_eq_iff)
  have h6: "TransportConnect \<notin> set [SupportSettles 0, SupportSettles 1]"
    "ChannelDisconnect 1 \<notin> set [SupportSettles 0, SupportSettles 1]" by simp_all
  from subscribe_waits_for_connection [OF h1 h2 h3 h4 g h6 refl]
  show ?thesis using h4 h5 by simp
qed



section \<open>One channel per address\<close>

lemma open_chans_kept:
  assumes "open_chans s k = Some ch"
    and "\<forall>r m. e \<noteq> CatchRuns r \<and> e \<noteq> ChannelDisconnect r \<and> e \<noteq> SubscribeError r m"
  shows "open_chans (step s e) k = Some ch"
  using assms
  by (cases e) (auto simp: getChannel_def handler_defs onConnect_def onDisconnect_def
      split: option.splits init_task.splits scope_slot.splits)

lemma registered_until_teardown:
  assumes "open_chans s k = Some ch"
    and "\<forall>r m. CatchRuns r \<notin> set es \<and> ChannelDisconnect r \<notin> set es \<and> SubscribeError r m \<notin> set es"
  shows "open_chans (run s es) k = Some ch"
  using assms unfolding run_def
proof (induction es arbitrary: s)
  case Nil
  then show ?case by simp
next
  case (Cons e es)
  have "open_chans (step s e) k = Some ch"
    using Cons.prems by (intro open_chans_kept) auto
  then show ?case using Cons.IH Cons.prems(2) by simp
qed

lemma getChannel_same_without_teardown:
  assumes "scopes s (scope a) \<noteq> None \<or> open_chans s (channel_key a) \<noteq> None"
    and "\<forall>r m. CatchRuns r \<notin> set es \<and> ChannelDisconnect r \<notin> set es \<and> SubscribeError r m \<notin> set es"
  shows "fst (getChannel (run (snd (getChannel s a)) es) a) = fst (getChannel s a)"
proof -
  have "open_chans (snd (getChannel s a)) (channel_key a) = Some (fst (getChannel s a))"
    using assms(1) by (auto simp: getChannel_def scopes_get_def Let_def split: option.splits if_splits)
  from registered_until_teardown [OF this assms(2)] show ?thesis
    by (simp add: getChannel_registered)
qed

text \<open>
  C1. Two calls of \<^verbatim>\<open>getChannel\<close> with one address return the same channel as long as no
  teardown runs in between (lemma \<open>getChannel_same_without_teardown\<close>). As stated, for
  any two calls made before the channel is \<^verbatim>\<open>Shutdown\<close> or \<^verbatim>\<open>Invalid\<close>, the claim fails:
  the handler of a failed initialisation deletes the key from the map, whichever channel the
  key points to. A first channel is shut down while its initialisation is pending; the next
  call registers a second channel under the key; the first initialisation then fails and its
  handler deletes the entry of the second channel, which is still \<^verbatim>\<open>Pending\<close>; a further
  call returns a third channel.
\<close>

theorem stale_teardown_unregisters_live_channel:
  "fst (getChannel example_srv addr_abc) = 0 \<and>
   fst (getChannel (run example_srv [GetChannel addr_abc, ChannelDisconnect 0]) addr_abc) = 1 \<and>
   status_state (heap (run example_srv
       [GetChannel addr_abc, ChannelDisconnect 0, GetChannel addr_abc]) ! 0) = Shutdown \<and>
   open_chans (run example_srv
       [GetChannel addr_abc, ChannelDisconnect 0, GetChannel addr_abc]) (channel_key addr_abc) = Some 1 \<and>
   status_state (heap (run example_srv
       [GetChannel addr_abc, ChannelDisconnect 0, GetChannel addr_abc,
        SupportSettles 0, CatchRuns 0]) ! 1) = Pending \<and>
   open_chans (run example_srv
       [GetChannel addr_abc, ChannelDisconnect 0, GetChannel addr_abc,
        SupportSettles 0, CatchRuns 0]) (channel_key addr_abc) = None \<and>
   fst (getChannel (run example_srv
       [GetChannel addr_abc, ChannelDisconnect 0, GetChannel addr_abc,
        SupportSettles 0, CatchRuns 0]) addr_abc) = 2"
  by (simp add: example_defs handler_defs)


section \<open>The frame buffer under a row limit\<close>

lemma evict_evict_append:
  "evict m (evict m xs @ ys) = evict m (xs @ ys)"
proof (cases m)
  case None
  then show ?thesis by (simp add: evict_def)
next
  case (Some k)
  show ?thesis
  proof (cases "length xs \<le> k")
    case True
    then show ?thesis by (simp add: evict_def Some)
  next
    case False
    then have "length xs + length ys - (length xs - k + k) + (length xs - k)
        = length xs + length ys - k" by arith
    then show ?thesis by (simp add: evict_def Some)
  qed
qed

lemma length_evict: "length (evict (Some k) xs) = min k (length xs)"
  by (auto simp: evict_def)

lemma deliver_Nil: "deliver lib options q [] = q"
  by (simp add: deliver_def)

lemma deliver_Cons:
  "deliver lib options q ((p, n) # ns) = deliver lib options (notify lib options p n q) ns"
  by (simp add: deliver_def)

lemma deliver_append:
  "deliver lib options q (ns @ ns') = deliver lib options (deliver lib options q ns) ns'"
  by (simp add: deliver_def)

lemma process_fields:
  "q_data (process options p msg q) = Some (process_data options msg (q_data q))"
  "q_closed (process options p msg q) = q_closed q"
  "q_completed (process options p msg q) = q_completed q"
  by (simp_all add: process_def emit_def Let_def)

lemma notify_message:
  assumes "\<not> q_closed q"
  shows "q_data (notify lib options p (Next (Message m)) q) = Some (process_data options m (q_data q))"
    and "\<not> q_closed (notify lib options p (Next (Message m)) q)"
  using assms by (simp_all add: notify_def process_fields)

lemma push_data_only:
  assumes "schema m = None"
  shows "sdf_fields (push m b) = sdf_fields b" and "sdf_maxLength (push m b) = sdf_maxLength b"
    and "sdf_rows (push m b) = evict (sdf_maxLength b) (sdf_rows b @ rows m)"
  using assms by (simp_all add: push_def)

lemma deliver_messages:
  assumes "\<not> q_closed q" and "q_data q = Some b" and "\<forall>(p, m) \<in> set (pm # ms). schema m = None"
  shows "\<exists>b'. q_data (deliver lib options q (map (\<lambda>(p, m). (p, Next (Message m))) (pm # ms))) = Some b' \<and>
      sdf_rows b' = evict (sdf_maxLength b) (sdf_rows b @ concat (map (\<lambda>(p, m). rows m) (pm # ms))) \<and>
      sdf_fields b' = sdf_fields b \<and> sdf_maxLength b' = sdf_maxLength b"
  using assms
proof (induction ms arbitrary: q b pm)
  case Nil
  obtain p m where pm: "pm = (p, m)" by (cases pm)
  have m: "schema m = None" using Nil.prems(3) pm by simp
  show ?case
    using Nil.prems(1,2)
    by (simp add: pm deliver_Cons deliver_Nil notify_message process_data_def push_data_only [OF m])
next
  case (Cons pm2 ms)
  obtain p m where pm: "pm = (p, m)" by (cases pm)
  let ?q = "notify lib options p (Next (Message m)) q"
  have m: "schema m = None" using Cons.prems(3) pm by simp
  have d: "q_data ?q = Some (push m b)"
    using Cons.prems(1,2) by (simp add: notify_message process_data_def)
  have c: "\<not> q_closed ?q" using Cons.prems(1) by (rule notify_message)
  have rest: "\<forall>(p, m) \<in> set (pm2 # ms). schema m = None" using Cons.prems(3) by simp
  from Cons.IH [OF c d rest] obtain b' where
    b': "q_data (deliver lib options ?q (map (\<lambda>(p, m). (p, Next (Message m))) (pm2 # ms))) = Some b'"
      "sdf_rows b' = evict (sdf_maxLength (push m b))
          (sdf_rows (push m b) @ concat (map (\<lambda>(p, m). rows m) (pm2 # ms)))"
      "sdf_fields b' = sdf_fields (push m b)" "sdf_maxLength b' = sdf_maxLength (push m b)"
    by blast
  have "q_data (deliver lib options q (map (\<lambda>(p, m). (p, Next (Message m))) (pm # pm2 # ms))) = Some b'"
    using b'(1) by (simp add: pm deliver_Cons)
  moreover have "sdf_rows b' = evict (sdf_maxLength b)
      (sdf_rows b @ concat (map (\<lambda>(p, m). rows m) (pm # pm2 # ms)))"
    using b'(2) by (simp add: pm push_data_only [OF m] evict_evict_append)
  ultimately show ?case
    using b'(3,4) by (simp add: push_data_only [OF m])
qed

text \<open>
  C4. For a frame buffer with maximum length \<open>K\<close>, after the messages of a running
  subscription have been processed (lines 230 to 236), each carrying rows and no schema, the
  buffer holds the last \<open>K\<close> of the rows it held followed by the rows that arrived, in
  the order of arrival (all of them if they are fewer than \<open>K\<close>), and its schema and its
  maximum length are as before.
\<close>

theorem frame_buffer_keeps_most_recent_rows:
  assumes "\<not> q_closed q" and "q_data q = Some b" and "sdf_maxLength b = Some K"
    and "ms \<noteq> []" and "\<forall>(p, m) \<in> set ms. schema m = None"
  shows "\<exists>b'. q_data (deliver lib options q (map (\<lambda>(p, m). (p, Next (Message m))) ms)) = Some b' \<and>
      sdf_rows b' =
        drop (length (sdf_rows b @ concat (map (\<lambda>(p, m). rows m) ms)) - K)
          (sdf_rows b @ concat (map (\<lambda>(p, m). rows m) ms)) \<and>
      length (sdf_rows b') = min K (length (sdf_rows b @ concat (map (\<lambda>(p, m). rows m) ms))) \<and>
      sdf_fields b' = sdf_fields b \<and> sdf_maxLength b' = Some K"
proof -
  obtain pm ms' where ms: "ms = pm # ms'" using assms(4) by (cases ms) auto
  have data_only: "\<forall>(p, m) \<in> set (pm # ms'). schema m = None" using assms(5) ms by simp
  from deliver_messages [OF assms(1,2) data_only, of lib options] obtain b' where
    b': "q_data (deliver lib options q (map (\<lambda>(p, m). (p, Next (Message m))) (pm # ms'))) = Some b'"
      "sdf_rows b' = evict (sdf_maxLength b) (sdf_rows b @ concat (map (\<lambda>(p, m). rows m) (pm # ms')))"
      "sdf_fields b' = sdf_fields b" "sdf_maxLength b' = sdf_maxLength b"
    by blast
  show ?thesis
    using b' assms(3) unfolding ms by (simp add: evict_def)
qed

theorem frame_buffer_keeps_most_recent_rows_witness:
  "\<not> q_closed example_query \<and> q_data example_query = Some example_buffer \<and>
   sdf_maxLength example_buffer = Some 3 \<and>
   (\<exists>b'. q_data (deliver example_imports example_options example_query
            [(example_perf, Next (Message (row_msg [[Num 3, Num 30]]))),
             (example_perf, Next (Message (row_msg [[Num 4, Num 40], [Num 5, Num 50]])))]) = Some b' \<and>
      sdf_rows b' = [[Num 3, Num 30], [Num 4, Num 40], [Num 5, Num 50]] \<and>
      sdf_fields b' = [''time'', ''value''])"
proof -
  have h1: "\<not> q_closed example_query" by (simp add: example_query_def)
  have h2: "q_data example_query = Some example_buffer" by (simp add: example_query_def)
  have h3: "sdf_maxLength example_buffer = Some 3" by (simp add: example_buffer_def)
  have h4: "[(example_perf, row_msg [[Num 3, Num 30]]),
      (example_perf, row_msg [[Num 4, Num 40], [Num 5, Num 50]])] \<noteq> []" by simp
  have h5: "\<forall>(p, m) \<in> set [(example_perf, row_msg [[Num 3, Num 30]]),
      (example_perf, row_msg [[Num 4, Num 40], [Num 5, Num 50]])]. schema m = None"
    by (simp add: row_msg_def)
  from frame_buffer_keeps_most_recent_rows [OF h1 h2 h3 h4 h5, of example_imports example_options]
  obtain b' where "q_data (deliver example_imports example_options example_query
            [(example_perf, Next (Message (row_msg [[Num 3, Num 30]]))),
             (example_perf, Next (Message (row_msg [[Num 4, Num 40], [Num 5, Num 50]])))]) = Some b'"
    and "sdf_rows b' = [[Num 3, Num 30], [Num 4, Num 40], [Num 5, Num 50]]"
    and "sdf_fields b' = [''time'', ''value'']"
    by (auto simp: row_msg_def example_buffer_def)
  with h1 h2 h3 show ?thesis by blast
qed



section \<open>Errors on a data stream\<close>

lemma notify_closed: "q_closed q \<Longrightarrow> notify lib options p n q = q"
  by (simp add: notify_def)

lemma deliver_closed: "q_closed q \<Longrightarrow> deliver lib options q ns = q"
proof (induction ns arbitrary: q)
  case Nil
  then show ?case by (simp add: deliver_Nil)
next
  case (Cons pn ns)
  then show ?case by (cases pn) (simp add: deliver_Cons notify_closed)
qed

lemma notify_completed_closed:
  assumes "q_completed q \<longrightarrow> q_closed q"
  shows "q_completed (notify lib options p n q) \<longrightarrow> q_closed (notify lib options p n q)"
  using assms
  by (auto simp: notify_def process_fields emit_def Let_def
      split: notification.splits LiveChannelEvent.splits option.splits)

lemma deliver_completed_closed:
  assumes "q_completed q \<longrightarrow> q_closed q"
  shows "q_completed (deliver lib options q ns) \<longrightarrow> q_closed (deliver lib options q ns)"
  using assms
proof (induction ns arbitrary: q)
  case Nil
  then show ?case by (simp add: deliver_Nil)
next
  case (Cons pn ns)
  obtain p n where pn: "pn = (p, n)" by (cases pn)
  show ?case
    unfolding pn deliver_Cons
    by (rule Cons.IH) (rule notify_completed_closed [OF Cons.prems])
qed

lemma subscribe_query_open:
  assumes "subscribe_query p0 options srv counter = (q0, srv', counter')"
  shows "\<not> q_closed q0" and "\<not> q_completed q0" and "q_out q0 = []"
  using assms by (auto simp: subscribe_query_def Let_def split: prod.splits)

text \<open>
  C8. On a running subscription of a data stream, an error of the channel's stream
  (line 261) sets the state to \<^verbatim>\<open>Error\<close>, delivers exactly one response, which carries the
  error and the data held so far, and closes the subscription to the channel: whatever the
  channel sends afterwards, nothing more is delivered and nothing changes; the observer
  does not subscribe again. The same holds when the channel reports the error in a status
  event and then completes its stream: exactly one response, with the state \<^verbatim>\<open>Error\<close>,
  then the end of the stream.
\<close>

theorem stream_error_ends_data_stream:
  assumes "subscribe_query p0 options srv counter = (q0, srv', counter')"
    and "q = deliver lib options q0 ns" and "\<not> q_closed q"
  shows "q_state (notify lib options p (StreamError err) q) = Error \<and>
     q_out (notify lib options p (StreamError err) q) =
       q_out q @ [\<lparr> resp_state = Error, resp_data = [data_frame (q_data q)],
                    resp_key = Some (q_key q), resp_error = Some (toDataQueryError lib err) \<rparr>] \<and>
     q_closed (notify lib options p (StreamError err) q) \<and>
     (\<forall>ns'. deliver lib options (notify lib options p (StreamError err) q) ns'
          = notify lib options p (StreamError err) q) \<and>
     (err \<noteq> [] \<longrightarrow>
        q_state (deliver lib options q [(p, Next (Status st (Some err) msg)), (p', Complete)]) = Error \<and>
        q_out (deliver lib options q [(p, Next (Status st (Some err) msg)), (p', Complete)]) =
          q_out q @ [\<lparr> resp_state = Error, resp_data = [data_frame (q_data q)],
                       resp_key = Some (q_key q),
                       resp_error = Some ((toDataQueryError lib err)
                         \<lparr>message := ''Streaming channel error: '' @ message (toDataQueryError lib err)\<rparr>) \<rparr>] \<and>
        q_completed (deliver lib options q [(p, Next (Status st (Some err) msg)), (p', Complete)]) \<and>
        (\<forall>ns'. deliver lib options
             (deliver lib options q [(p, Next (Status st (Some err) msg)), (p', Complete)]) ns'
           = deliver lib options q [(p, Next (Status st (Some err) msg)), (p', Complete)]))"
proof -
  have "q_completed q0 \<longrightarrow> q_closed q0"
    using subscribe_query_open [OF assms(1)] by simp
  then have "q_completed q \<longrightarrow> q_closed q"
    unfolding assms(2) by (rule deliver_completed_closed)
  then have nc: "\<not> q_completed q" using assms(3) by blast
  have c: "q_closed (notify lib options p (StreamError err) q)"
    using assms(3) by (simp add: notify_def)
  have first: "q_state (notify lib options p (StreamError err) q) = Error \<and>
     q_out (notify lib options p (StreamError err) q) =
       q_out q @ [\<lparr> resp_state = Error, resp_data = [data_frame (q_data q)],
                    resp_key = Some (q_key q), resp_error = Some (toDataQueryError lib err) \<rparr>] \<and>
     q_closed (notify lib options p (StreamError err) q) \<and>
     (\<forall>ns'. deliver lib options (notify lib options p (StreamError err) q) ns'
          = notify lib options p (StreamError err) q)"
    using assms(3) nc deliver_closed [OF c] by (simp add: notify_def emit_def)
  have second: "q_state (deliver lib options q [(p, Next (Status st (Some err) msg)), (p', Complete)]) = Error \<and>
        q_out (deliver lib options q [(p, Next (Status st (Some err) msg)), (p', Complete)]) =
          q_out q @ [\<lparr> resp_state = Error, resp_data = [data_frame (q_data q)],
                       resp_key = Some (q_key q),
                       resp_error = Some ((toDataQueryError lib err)
                         \<lparr>message := ''Streaming channel error: '' @ message (toDataQueryError lib err)\<rparr>) \<rparr>] \<and>
        q_completed (deliver lib options q [(p, Next (Status st (Some err) msg)), (p', Complete)]) \<and>
        q_closed (deliver lib options q [(p, Next (Status st (Some err) msg)), (p', Complete)])"
    if "err \<noteq> []"
    using that assms(3) nc by (simp add: deliver_Cons deliver_Nil notify_def emit_def Let_def)
  show ?thesis
    using first second deliver_closed by blast
qed

theorem stream_error_ends_data_stream_witness:
  "\<not> q_closed (deliver example_imports example_live_options
        (fst (subscribe_query example_perf example_live_options example_srv 0))
        [(example_perf, Next (Message example_message))]) \<and>
   q_out (notify example_imports example_live_options example_perf (StreamError ''lost'')
       (deliver example_imports example_live_options
         (fst (subscribe_query example_perf example_live_options example_srv 0))
         [(example_perf, Next (Message example_message))])) =
     [\<lparr> resp_state = Streaming,
        resp_data = [Some \<lparr> df_fields = [''time'', ''value''], df_rows = [[Num 1, Num 10]], df_length = 1 \<rparr>],
        resp_key = Some (Generated 0), resp_error = None \<rparr>,
      \<lparr> resp_state = Error,
        resp_data = [Some \<lparr> df_fields = [''time'', ''value''], df_rows = [[Num 1, Num 10]], df_length = 1 \<rparr>],
        resp_key = Some (Generated 0), resp_error = Some \<lparr> message = ''lost'' \<rparr> \<rparr>] \<and>
   deliver example_imports example_live_options
     (notify example_imports example_live_options example_perf (StreamError ''lost'')
       (deliver example_imports example_live_options
         (fst (subscribe_query example_perf example_live_options example_srv 0))
         [(example_perf, Next (Message example_message))]))
     [(example_perf, Next (Message example_message))] =
   notify example_imports example_live_options example_perf (StreamError ''lost'')
       (deliver example_imports example_live_options
         (fst (subscribe_query example_perf example_live_options example_srv 0))
         [(example_perf, Next (Message example_message))])"
proof -
  let ?start = "fst (subscribe_query example_perf example_live_options example_srv 0)"
  let ?cur = "deliver example_imports example_live_options ?start [(example_perf, Next (Message example_message))]"
  have h1: "subscribe_query example_perf example_live_options example_srv 0 =
      (?start, fst (snd (subscribe_query example_perf example_live_options example_srv 0)),
       snd (snd (subscribe_query example_perf example_live_options example_srv 0)))"
    by simp
  have h2: "?cur = deliver example_imports example_live_options ?start
      [(example_perf, Next (Message example_message))]" by simp
  have q: "?cur = \<lparr> q_channel = 0,
      q_data = Some \<lparr> sdf_fields = [''time'', ''value''], sdf_rows = [[Num 1, Num 10]], sdf_maxLength = Some 3 \<rparr>,
      q_filtered = Some [''time'', ''value''], q_state = Streaming, q_key = Generated 0, q_last = 0,
      q_closed = False, q_completed = False,
      q_out = [\<lparr> resp_state = Streaming,
        resp_data = [Some \<lparr> df_fields = [''time'', ''value''], df_rows = [[Num 1, Num 10]], df_length = 1 \<rparr>],
        resp_key = Some (Generated 0), resp_error = None \<rparr>] \<rparr>"
    by (simp add: subscribe_query_def example_live_options_def example_defs example_perf_def
        deliver_def notify_def process_def process_data_def StreamingDataFrame_new_def push_def
        evict_def filter_fields_def frame_of_def emit_def example_message_def Let_def)
  have h3: "\<not> q_closed ?cur" by (simp add: q)
  have t: "toDataQueryError example_imports ''lost'' = \<lparr> message = ''lost'' \<rparr>"
    by (simp add: example_imports_def)
  show ?thesis
    using stream_error_ends_data_stream [OF h1 h2 h3, of example_perf "''lost''"] h3
    by (simp add: q t data_frame_def frame_of_def)
qed


text \<open>
  A status event with an error that is not followed by the end of the channel's stream
  leaves the subscription open (lines 282 to 287 return without closing it).
\<close>

lemma status_error_keeps_subscription:
  assumes "\<not> q_closed q" and "e \<noteq> []"
  shows "q_state (notify lib options p (Next (Status st (Some e) msg)) q) = Error"
    and "\<not> q_closed (notify lib options p (Next (Status st (Some e) msg)) q)"
  using assms by (simp_all add: notify_def emit_def Let_def)


section \<open>getDataStream with an invalid address\<close>

text \<open>
  C9. When the address of the options fails the validity check, the observable that
  \<^verbatim>\<open>getDataStream\<close> returns gives its subscriber exactly one response and completes: the
  state is \<^verbatim>\<open>Error\<close>, the error is made from the text \<^verbatim>\<open>invalid channel address: \<close>
  followed by the address, and the data is the list of the initial frame if there is one and
  the empty list otherwise. The service is left as it was: no channel is made or touched.
\<close>

theorem getDataStream_invalid_address:
  assumes "\<not> isValidLiveChannelAddress lib (opt_addr options)"
  shows "subscribe_stream p (getDataStream lib options) srv counter =
     (\<lparr> received =
          [\<lparr> resp_state = Error,
             resp_data = (case opt_frame options of Some f \<Rightarrow> [Some f] | None \<Rightarrow> []),
             resp_key = None,
             resp_error = Some (toDataQueryError lib
               (''invalid channel address: '' @ JSON_stringify lib (opt_addr options))) \<rparr>],
         completed = True, query = None \<rparr>,
      srv, counter)"
  using assms by (simp add: getDataStream_def subscribe_stream_def)

theorem getDataStream_invalid_address_witness:
  "\<not> isValidLiveChannelAddress example_imports (opt_addr example_options) \<and>
   subscribe_stream example_perf (getDataStream example_imports example_options) example_srv 0 =
     (\<lparr> received =
          [\<lparr> resp_state = Error, resp_data = [Some example_frame], resp_key = None,
             resp_error = Some \<lparr> message = ''invalid channel address: grafana/dashboard/'' \<rparr> \<rparr>],
         completed = True, query = None \<rparr>,
      example_srv, 0)"
proof -
  have h: "\<not> isValidLiveChannelAddress example_imports (opt_addr example_options)"
    by (simp add: example_imports_def example_options_def addr_no_path_def)
  show ?thesis
    using h getDataStream_invalid_address [OF h, of example_perf example_srv 0]
    by (simp add: example_imports_def example_options_def addr_no_path_def channel_key_def)
qed


section \<open>getChannelInfo\<close>

text \<open>
  C10. \<^verbatim>\<open>getChannelInfo\<close> rejects exactly when the scope is unknown or the scope has no
  support for the namespace. With a known scope and a supported namespace it resolves to
  whatever \<^verbatim>\<open>getChannelConfig(path)\<close> gives, and so to \<^verbatim>\<open>undefined\<close> when the support has
  no configuration for the path.
\<close>

theorem getChannelInfo_rejects_only_without_scope_or_support:
  "((\<exists>e. getChannelInfo srv a = Rejects e) \<longleftrightarrow>
      (scopes srv (scope a) = None \<or>
       (\<exists>sc. scopes srv (scope a) = Some sc \<and> sc (namespace a) = None))) \<and>
   (\<forall>sc support. scopes srv (scope a) = Some sc \<longrightarrow> sc (namespace a) = Some support \<longrightarrow>
      getChannelInfo srv a = Resolves (support (path a)) \<and>
      (support (path a) = None \<longrightarrow> getChannelInfo srv a = Resolves None))"
  by (auto simp: getChannelInfo_def scopes_get_def split: option.splits if_splits)

theorem getChannelInfo_unknown_path_witness:
  "scopes example_srv (scope addr_abc) = Some example_scope \<and>
   example_scope (namespace addr_abc) = Some example_support \<and>
   example_support (path addr_abc) = None \<and>
   getChannelInfo example_srv addr_abc = Resolves None \<and>
   \<not> (\<exists>e. getChannelInfo example_srv addr_abc = Rejects e)"
  using getChannelInfo_rejects_only_without_scope_or_support [of example_srv addr_abc]
  by (simp add: example_srv_def CentrifugeSrv_new_def addr_abc_def example_scope_def
      example_support_def scopes_get_def)


end
